theory Spec2Isabelle
  imports Main "HOL-Library.Word" "HOL-Library.Sublist" "HOL-Library.AList"
    "HOL-Library.Multiset"
begin

section \<open>Python values used by \<open>gen_emoji_lexicon\<close>\<close>

text \<open>
  A Python \<open>str\<close> is a sequence of Unicode code points, and \<open>len\<close> counts code points;
  \<open>bytes\<close> is a sequence of octets.  An ASCII literal is written \<open>str ''happy''\<close>.
\<close>

type_synonym pystr = "nat list"

type_synonym pybytes = "8 word list"

definition str :: "string \<Rightarrow> pystr" where
  "str s = map of_char s"

datatype error = KeyError | AttributeError | UnicodeEncodeError

text \<open>
  \<open>cldr_char.encode("utf-8")\<close>: one to four octets per code point; a surrogate code
  point cannot be encoded and raises.
\<close>

definition utf8_scalar :: "nat \<Rightarrow> pybytes option" where
  "utf8_scalar c =
     (if c < 0x80 then Some [word_of_nat c]
      else if c < 0x800 then
        Some [word_of_nat (0xC0 + c div 64), word_of_nat (0x80 + c mod 64)]
      else if 0xD800 \<le> c \<and> c < 0xE000 then None
      else if c < 0x10000 then
        Some [word_of_nat (0xE0 + c div 4096), word_of_nat (0x80 + c div 64 mod 64),
              word_of_nat (0x80 + c mod 64)]
      else
        Some [word_of_nat (0xF0 + c div 262144), word_of_nat (0x80 + c div 4096 mod 64),
              word_of_nat (0x80 + c div 64 mod 64), word_of_nat (0x80 + c mod 64)])"

fun encode_utf8 :: "pystr \<Rightarrow> error + pybytes" where
  "encode_utf8 [] = Inr []"
| "encode_utf8 (c # cs) =
     (case utf8_scalar c of
        None \<Rightarrow> Inl UnicodeEncodeError
      | Some b \<Rightarrow> (case encode_utf8 cs of Inl e \<Rightarrow> Inl e | Inr bs \<Rightarrow> Inr (b @ bs)))"

text \<open>
  \<open>s.split()\<close> without arguments cuts at runs of whitespace and returns no empty
  piece.  The whitespace code points are those of \<open>str.isspace\<close>.
\<close>

definition py_isspace :: "nat \<Rightarrow> bool" where
  "py_isspace c =
     ((0x09 \<le> c \<and> c \<le> 0x0D) \<or> (0x1C \<le> c \<and> c \<le> 0x20) \<or> c = 0x85 \<or> c = 0xA0
      \<or> c = 0x1680 \<or> (0x2000 \<le> c \<and> c \<le> 0x200A) \<or> c = 0x2028 \<or> c = 0x2029
      \<or> c = 0x202F \<or> c = 0x205F \<or> c = 0x3000)"

fun split_from :: "pystr \<Rightarrow> pystr \<Rightarrow> pystr list" where
  "split_from cur [] = (if cur = [] then [] else [cur])"
| "split_from cur (c # cs) =
     (if py_isspace c then (if cur = [] then split_from [] cs else cur # split_from [] cs)
      else split_from (cur @ [c]) cs)"

definition py_split :: "pystr \<Rightarrow> pystr list" where
  "py_split s = split_from [] s"

text \<open>
  A Python \<open>dict\<close> keeps its keys in insertion order: an association list with distinct
  keys.  \<open>d[k] = v\<close> replaces the value of an existing key in place and appends a new
  key at the end; \<open>d.get(k)\<close> and \<open>k in d\<close> read it.
\<close>

type_synonym ('k, 'v) pydict = "('k \<times> 'v) list"

definition dict_set :: "('k, 'v) pydict \<Rightarrow> 'k \<Rightarrow> 'v \<Rightarrow> ('k, 'v) pydict" where
  "dict_set d k v = AList.update k v d"

definition dict_get :: "('k, 'v) pydict \<Rightarrow> 'k \<Rightarrow> 'v option" where
  "dict_get d k = map_of d k"

definition dict_keys :: "('k, 'v) pydict \<Rightarrow> 'k list" where
  "dict_keys d = map fst d"

definition dict_values :: "('k, 'v) pydict \<Rightarrow> 'v list" where
  "dict_values d = map snd d"

definition dict_has :: "('k, 'v) pydict \<Rightarrow> 'k \<Rightarrow> bool" where
  "dict_has d k = (k \<in> set (dict_keys d))"

text \<open>\<open>xs[:k]\<close>: a negative bound counts from the end.\<close>

definition slice_upto :: "int \<Rightarrow> 'a list \<Rightarrow> 'a list" where
  "slice_upto k xs = (if 0 \<le> k then take (nat k) xs else take (length xs - nat (- k)) xs)"

section \<open>The collaborators and the data files\<close>

text \<open>
  The \<open>emoji\<close> package, ICU, \<open>str.lower\<close> and the helpers imported from the rest of the
  package are parameters of the model, as are the parsed data files.
\<close>

datatype emoji_status = component | fully_qualified | minimally_qualified | unqualified

record externals =
  str_lower :: "pystr \<Rightarrow> pystr"
  EMOJI_DATA :: "pystr \<Rightarrow> emoji_status option"
  emoji_codes_to_ignore :: "pybytes list"
  EMOJI_MODIFIER_BASE :: "pystr \<Rightarrow> bool"
  add_num_commas :: "nat \<Rightarrow> pystr"

text \<open>
  An annotation object has the fields \<open>default\<close> and \<open>tts\<close>, a noun object the field
  \<open>plural\<close>; a field that is absent is \<open>None\<close> here, and reading it raises \<open>KeyError\<close>.
  A parsed JSON object is a \<open>dict\<close>: its keys are distinct and stand in file order.
  The rank table is the list of its rows, \<open>Emoji\<close> and \<open>Rank\<close> parsed.
\<close>

record annotation =
  ann_default :: "pystr list option"
  ann_tts :: "pystr list option"

record noun =
  plural :: "pystr option"

record data_files =
  ranked_tsv :: "(pystr \<times> int) list"
  annotations :: "(pystr, annotation) pydict"
  annotationsDerived :: "(pystr, annotation) pydict"
  nouns :: "(pystr, noun) pydict"

text \<open>The argument \<open>ignore_keywords\<close> is any Python value; these are the ones that occur.\<close>

datatype py_item = PyStr pystr | PyInt int | PyNone

datatype ignore_arg =
    Ignore_None
  | Ignore_Str pystr
  | Ignore_List "py_item list"
  | Ignore_Tuple "py_item list"
  | Ignore_Set "py_item list"

section \<open>The keyword table under construction\<close>

text \<open>
  A suggestion is the dictionary \<open>{"emoji", "is_base", "rank"}\<close>.  The lists of
  suggestions are mutable objects that several keys may share, so the table maps a
  keyword to the address of its list in a store.
\<close>

record entry =
  emoji :: pystr
  is_base :: bool
  rank :: "int option"

record lexicon =
  keyword_dict :: "(pystr, nat) pydict"
  store :: "entry list list"

definition empty_lexicon :: lexicon where
  "empty_lexicon = \<lparr>keyword_dict = [], store = []\<rparr>"

text \<open>\<open>keyword_dict.setdefault(k, []).append(e)\<close>\<close>

definition setdefault_append :: "lexicon \<Rightarrow> pystr \<Rightarrow> entry \<Rightarrow> lexicon" where
  "setdefault_append lx k e =
     (case dict_get (keyword_dict lx) k of
        Some a \<Rightarrow> lx\<lparr>store := (store lx)[a := store lx ! a @ [e]]\<rparr>
      | None \<Rightarrow> lx\<lparr>keyword_dict := dict_set (keyword_dict lx) k (length (store lx)),
                   store := store lx @ [[e]]\<rparr>)"

section \<open>Normalising the ignore list\<close>

fun lower_items :: "externals \<Rightarrow> py_item list \<Rightarrow> error + pystr list" where
  "lower_items ext [] = Inr []"
| "lower_items ext (PyStr s # ks) =
     (case lower_items ext ks of Inl e \<Rightarrow> Inl e | Inr r \<Rightarrow> Inr (str_lower ext s # r))"
| "lower_items ext (_ # ks) = Inl AttributeError"

definition keywords_to_ignore :: "externals \<Rightarrow> ignore_arg \<Rightarrow> error + pystr list" where
  "keywords_to_ignore ext ignore_keywords =
     lower_items ext
       (case ignore_keywords of
          Ignore_Str s \<Rightarrow> [PyStr s]
        | Ignore_List l \<Rightarrow> l
        | _ \<Rightarrow> [])"

section \<open>Scanning the annotation files\<close>

definition popularity_dict :: "(pystr \<times> int) list \<Rightarrow> (pystr, int) pydict" where
  "popularity_dict rows = fold (\<lambda>(e, r) d. dict_set d e r) rows []"

text \<open>The loop over \<open>emoji_annotations["default"]\<close>.\<close>

fun add_keywords :: "externals \<Rightarrow> pystr list \<Rightarrow> entry \<Rightarrow> pystr list \<Rightarrow> lexicon \<Rightarrow> lexicon" where
  "add_keywords ext ign e [] lx = lx"
| "add_keywords ext ign e (p # ps) lx =
     (let emoji_keyword = str_lower ext p
      in if length (py_split emoji_keyword) = 1 \<and> emoji_keyword \<notin> set ign
         then add_keywords ext ign e ps (setdefault_append lx emoji_keyword e)
         else add_keywords ext ign e ps lx)"

text \<open>The rank filter \<open>num_emojis and (emoji_rank is None or emoji_rank > num_emojis)\<close>.\<close>

definition over_limit :: "int option \<Rightarrow> int option \<Rightarrow> bool" where
  "over_limit num_emojis emoji_rank =
     (case num_emojis of
        None \<Rightarrow> False
      | Some n \<Rightarrow> n \<noteq> 0 \<and> (case emoji_rank of None \<Rightarrow> True | Some r \<Rightarrow> r > n))"

text \<open>The body of the loop over the characters of one annotation file.\<close>

definition process_char ::
  "externals \<Rightarrow> int option \<Rightarrow> pystr list \<Rightarrow> (pystr, int) pydict \<Rightarrow>
   pystr \<times> annotation \<Rightarrow> lexicon \<Rightarrow> error + lexicon" where
  "process_char ext num_emojis ign pop ca lx =
     (let cldr_char = fst ca in
      case EMOJI_DATA ext cldr_char of
        None \<Rightarrow> Inr lx
      | Some status \<Rightarrow>
          (case encode_utf8 cldr_char of
             Inl err \<Rightarrow> Inl err
           | Inr code \<Rightarrow>
               if code \<in> set (emoji_codes_to_ignore ext) then Inr lx
               else
                 let emoji_rank = dict_get pop cldr_char in
                 if over_limit num_emojis emoji_rank then Inr lx
                 else
                   let has_modifier_base = EMOJI_MODIFIER_BASE ext cldr_char in
                   if has_modifier_base \<and> length cldr_char > 1 then Inr lx
                   else if status = fully_qualified then
                     (case ann_default (snd ca) of
                        None \<Rightarrow> Inl KeyError
                      | Some phrases \<Rightarrow>
                          Inr (add_keywords ext ign
                                 \<lparr>emoji = cldr_char, is_base = has_modifier_base,
                                  rank = emoji_rank\<rparr>
                                 phrases lx))
                   else Inr lx))"

fun scan_chars ::
  "externals \<Rightarrow> int option \<Rightarrow> pystr list \<Rightarrow> (pystr, int) pydict \<Rightarrow>
   (pystr, annotation) pydict \<Rightarrow> lexicon \<Rightarrow> error + lexicon" where
  "scan_chars ext num_emojis ign pop [] lx = Inr lx"
| "scan_chars ext num_emojis ign pop (ca # cas) lx =
     (case process_char ext num_emojis ign pop ca lx of
        Inl err \<Rightarrow> Inl err
      | Inr lx' \<Rightarrow> scan_chars ext num_emojis ign pop cas lx')"

text \<open>Both files, \<open>annotations\<close> first, into the one table.\<close>

definition scan_files ::
  "externals \<Rightarrow> data_files \<Rightarrow> int option \<Rightarrow> pystr list \<Rightarrow> error + lexicon" where
  "scan_files ext files num_emojis ign =
     (let pop = popularity_dict (ranked_tsv files) in
      case scan_chars ext num_emojis ign pop (annotations files) empty_lexicon of
        Inl err \<Rightarrow> Inl err
      | Inr lx \<Rightarrow> scan_chars ext num_emojis ign pop (annotationsDerived files) lx)"

section \<open>Plural linkage\<close>

fun plurals_to_singulars_dict ::
  "externals \<Rightarrow> (pystr, noun) pydict \<Rightarrow> (pystr, pystr) pydict \<Rightarrow> error + (pystr, pystr) pydict"
  where
  "plurals_to_singulars_dict ext [] acc = Inr acc"
| "plurals_to_singulars_dict ext (rn # rest) acc =
     (case plural (snd rn) of
        None \<Rightarrow> Inl KeyError
      | Some p \<Rightarrow>
          if p \<noteq> str ''isPlural''
          then plurals_to_singulars_dict ext rest
                 (dict_set acc (str_lower ext p) (str_lower ext (fst rn)))
          else plurals_to_singulars_dict ext rest acc)"

definition link_plural :: "pystr \<times> pystr \<Rightarrow> (pystr, nat) pydict \<Rightarrow> (pystr, nat) pydict" where
  "link_plural ps kd =
     (if \<not> dict_has kd (fst ps) \<and> dict_has kd (snd ps)
      then (case dict_get kd (snd ps) of Some a \<Rightarrow> dict_set kd (fst ps) a | None \<Rightarrow> kd)
      else kd)"

definition link_plurals :: "(pystr, pystr) pydict \<Rightarrow> (pystr, nat) pydict \<Rightarrow> (pystr, nat) pydict"
  where
  "link_plurals pairs kd = fold link_plural pairs kd"

section \<open>Sorting and truncating\<close>

text \<open>
  The sort key \<open>float("inf") if suggestion["rank"] is None else suggestion["rank"]\<close>:
  every integer is below the infinity.  \<open>list.sort\<close> is stable, as \<open>sort_key\<close> is, and
  a stable sort has one result only (\<open>properties_for_sort_key\<close>).
\<close>

datatype rank_key = Finite int | Infinity

instantiation rank_key :: linorder
begin

fun less_eq_rank_key :: "rank_key \<Rightarrow> rank_key \<Rightarrow> bool" where
  "less_eq_rank_key (Finite a) (Finite b) = (a \<le> b)"
| "less_eq_rank_key (Finite a) Infinity = True"
| "less_eq_rank_key Infinity (Finite b) = False"
| "less_eq_rank_key Infinity Infinity = True"

definition less_rank_key :: "rank_key \<Rightarrow> rank_key \<Rightarrow> bool" where
  "less_rank_key x y = (x \<le> y \<and> \<not> y \<le> x)"

instance
proof
  fix x y z :: rank_key
  show "(x < y) = (x \<le> y \<and> \<not> y \<le> x)" by (simp add: less_rank_key_def)
  show "x \<le> x" by (cases x) auto
  show "x \<le> y \<Longrightarrow> y \<le> z \<Longrightarrow> x \<le> z" by (cases x; cases y; cases z) auto
  show "x \<le> y \<Longrightarrow> y \<le> x \<Longrightarrow> x = y" by (cases x; cases y) auto
  show "x \<le> y \<or> y \<le> x" by (cases x; cases y) auto
qed

end

definition sort_rank :: "entry \<Rightarrow> rank_key" where
  "sort_rank suggestion = (case rank suggestion of None \<Rightarrow> Infinity | Some r \<Rightarrow> Finite r)"

text \<open>
  \<open>if emojis_per_keyword and len(emojis) > emojis_per_keyword:
  emojis[:] = emojis[:emojis_per_keyword]\<close>
\<close>

definition cap_emojis :: "int option \<Rightarrow> entry list \<Rightarrow> entry list" where
  "cap_emojis emojis_per_keyword emojis =
     (case emojis_per_keyword of
        None \<Rightarrow> emojis
      | Some k \<Rightarrow> if k \<noteq> 0 \<and> int (length emojis) > k then slice_upto k emojis else emojis)"

text \<open>
  One round of the loop over \<open>keyword_dict.values()\<close>: the list at address \<open>a\<close> is
  sorted and cut in place, so every key that shares it sees the change.
\<close>

definition sort_emojis :: "int option \<Rightarrow> nat \<Rightarrow> entry list list \<Rightarrow> entry list list" where
  "sort_emojis emojis_per_keyword a st =
     st[a := cap_emojis emojis_per_keyword (sort_key sort_rank (st ! a))]"

definition sort_lexicon :: "int option \<Rightarrow> lexicon \<Rightarrow> lexicon" where
  "sort_lexicon emojis_per_keyword lx =
     lx\<lparr>store := fold (sort_emojis emojis_per_keyword) (dict_values (keyword_dict lx))
                    (store lx)\<rparr>"

section \<open>The returned table\<close>

datatype suggestion = With_base_rank entry | Emoji_only pystr

definition resolve :: "lexicon \<Rightarrow> (pystr, entry list) pydict" where
  "resolve lx = map (\<lambda>(k, a). (k, store lx ! a)) (keyword_dict lx)"

definition shape :: "bool \<Rightarrow> (pystr, entry list) pydict \<Rightarrow> (pystr, suggestion list) pydict" where
  "shape export_base_rank table =
     (if \<not> export_base_rank
      then map (\<lambda>(k, v). (k, map (\<lambda>emoji_keys. Emoji_only (emoji emoji_keys)) v)) table
      else map (\<lambda>(k, v). (k, map With_base_rank v)) table)"

datatype cldr_file = Annotations | Annotations_derived

datatype console =
    Progress_bar cldr_file pystr
  | Keywords_found pystr pystr

text \<open>The table after the scan and the plural linkage, before the sort.\<close>

definition build_lexicon ::
  "externals \<Rightarrow> data_files \<Rightarrow> int option \<Rightarrow> pystr list \<Rightarrow> error + lexicon" where
  "build_lexicon ext files num_emojis ign =
     (case scan_files ext files num_emojis ign of
        Inl err \<Rightarrow> Inl err
      | Inr lx \<Rightarrow>
          (case plurals_to_singulars_dict ext (nouns files) [] of
             Inl err \<Rightarrow> Inl err
           | Inr pairs \<Rightarrow> Inr (lx\<lparr>keyword_dict := link_plurals pairs (keyword_dict lx)\<rparr>)))"

text \<open>The table after the sort, with base status and rank still present.\<close>

definition ranked_table ::
  "externals \<Rightarrow> data_files \<Rightarrow> int option \<Rightarrow> int option \<Rightarrow> ignore_arg \<Rightarrow>
   error + (pystr, entry list) pydict" where
  "ranked_table ext files num_emojis emojis_per_keyword ignore_keywords =
     (case keywords_to_ignore ext ignore_keywords of
        Inl err \<Rightarrow> Inl err
      | Inr ign \<Rightarrow>
          (case build_lexicon ext files num_emojis ign of
             Inl err \<Rightarrow> Inl err
           | Inr lx \<Rightarrow> Inr (resolve (sort_lexicon emojis_per_keyword lx))))"

text \<open>
  \<open>gen_emoji_lexicon\<close> with \<open>update_local_data=False\<close>: what it writes to the console
  and the table it returns.
\<close>

definition gen_emoji_lexicon ::
  "externals \<Rightarrow> data_files \<Rightarrow> pystr \<Rightarrow> int option \<Rightarrow> int option \<Rightarrow> ignore_arg \<Rightarrow>
   bool \<Rightarrow> bool \<Rightarrow> error + console list \<times> (pystr, suggestion list) pydict" where
  "gen_emoji_lexicon ext files language num_emojis emojis_per_keyword ignore_keywords
     export_base_rank verbose =
     (case ranked_table ext files num_emojis emojis_per_keyword ignore_keywords of
        Inl err \<Rightarrow> Inl err
      | Inr table \<Rightarrow>
          Inr ((if verbose
                then [Progress_bar Annotations language,
                      Progress_bar Annotations_derived language,
                      Keywords_found language (add_num_commas ext (length table))]
                else []),
               shape export_base_rank table))"

section \<open>Notions used to state the properties\<close>

text \<open>The order of the sort keys, read on the rank itself.\<close>

definition key_of_rank :: "int option \<Rightarrow> rank_key" where
  "key_of_rank r = (case r of None \<Rightarrow> Infinity | Some i \<Rightarrow> Finite i)"

text \<open>
  Every key is stored once and points into the store.  The table has this shape at
  every point of the run.
\<close>

definition wf_lexicon :: "lexicon \<Rightarrow> bool" where
  "wf_lexicon lx =
     (distinct (dict_keys (keyword_dict lx)) \<and>
      list_all (\<lambda>a. a < length (store lx)) (dict_values (keyword_dict lx)))"

definition all_entries :: "(entry \<Rightarrow> bool) \<Rightarrow> entry list list \<Rightarrow> bool" where
  "all_entries P st = list_all (list_all P) st"

text \<open>
  The filtering policy in the words of the specification: the character is in the
  reference set, its encoding is not ignored, it passes the rank filter when
  \<open>num_emojis\<close> is set, it is not a modifier base of more than one scalar value, and it
  is fully qualified.
\<close>

definition passes_filters ::
  "externals \<Rightarrow> int option \<Rightarrow> (pystr, int) pydict \<Rightarrow> pystr \<Rightarrow> bool" where
  "passes_filters ext num_emojis pop c =
     (EMOJI_DATA ext c \<noteq> None \<and>
      (case encode_utf8 c of Inl err \<Rightarrow> False
       | Inr code \<Rightarrow> code \<notin> set (emoji_codes_to_ignore ext)) \<and>
      (case num_emojis of None \<Rightarrow> True
       | Some n \<Rightarrow> n = 0 \<or> (case dict_get pop c of None \<Rightarrow> False | Some r \<Rightarrow> r \<le> n)) \<and>
      \<not> (EMOJI_MODIFIER_BASE ext c \<and> length c > 1) \<and>
      EMOJI_DATA ext c = Some fully_qualified)"

text \<open>What the scan records for a character that it lets through.\<close>

definition scanned_entry ::
  "externals \<Rightarrow> int option \<Rightarrow> (pystr, int) pydict \<Rightarrow> entry \<Rightarrow> bool" where
  "scanned_entry ext num_emojis pop e =
     (passes_filters ext num_emojis pop (emoji e) \<and>
      rank e = dict_get pop (emoji e) \<and>
      is_base e = EMOJI_MODIFIER_BASE ext (emoji e))"

text \<open>The keywords that a list of phrases yields: lowercased, one word, not ignored.\<close>

definition accepted_keywords :: "externals \<Rightarrow> pystr list \<Rightarrow> pystr list \<Rightarrow> pystr list" where
  "accepted_keywords ext ign phrases =
     filter (\<lambda>k. length (py_split k) = 1 \<and> k \<notin> set ign) (map (str_lower ext) phrases)"

text \<open>One suggestion of the returned table, and the character it suggests.\<close>

definition as_suggestion :: "bool \<Rightarrow> entry \<Rightarrow> suggestion" where
  "as_suggestion export_base_rank e =
     (if export_base_rank then With_base_rank e else Emoji_only (emoji e))"

fun suggested :: "suggestion \<Rightarrow> pystr" where
  "suggested (With_base_rank e) = emoji e"
| "suggested (Emoji_only c) = c"

text \<open>The popularity rank of a suggestion, read from the rank table.\<close>

definition popularity :: "data_files \<Rightarrow> suggestion \<Rightarrow> int option" where
  "popularity files s = dict_get (popularity_dict (ranked_tsv files)) (suggested s)"

text \<open>The table as it stands before the sort: what each key holds after the linkage.\<close>

definition unsorted_table ::
  "externals \<Rightarrow> data_files \<Rightarrow> int option \<Rightarrow> ignore_arg \<Rightarrow>
   error + (pystr, entry list) pydict" where
  "unsorted_table ext files num_emojis ignore_keywords =
     (case keywords_to_ignore ext ignore_keywords of
        Inl err \<Rightarrow> Inl err
      | Inr ign \<Rightarrow>
          (case build_lexicon ext files num_emojis ign of
             Inl err \<Rightarrow> Inl err
           | Inr lx \<Rightarrow> Inr (resolve lx)))"

section \<open>A small world to run the model in\<close>

definition ascii_lower :: "pystr \<Rightarrow> pystr" where
  "ascii_lower s = map (\<lambda>c. if 65 \<le> c \<and> c \<le> 90 then c + 32 else c) s"

definition grinning_face :: pystr where
  "grinning_face = [0x1F600]"

definition cat_face :: pystr where
  "cat_face = [0x1F63A]"

definition thumbs_up :: pystr where
  "thumbs_up = [0x1F44D]"

definition thumbs_up_dark :: pystr where
  "thumbs_up_dark = [0x1F44D, 0x1F3FF]"

definition frowning_unqualified :: pystr where
  "frowning_unqualified = [0x2639]"

definition flag_letter_a :: pystr where
  "flag_letter_a = [0x1F1E6]"

definition sparkles :: pystr where
  "sparkles = [0x2728]"

definition demo_ext :: externals where
  "demo_ext =
     \<lparr>str_lower = ascii_lower,
      EMOJI_DATA = map_of
        [(grinning_face, fully_qualified), (cat_face, fully_qualified),
         (thumbs_up, fully_qualified), (thumbs_up_dark, fully_qualified),
         (frowning_unqualified, unqualified), (flag_letter_a, fully_qualified),
         (sparkles, fully_qualified)],
      emoji_codes_to_ignore = [[0xF0, 0x9F, 0x87, 0xA6]],
      EMOJI_MODIFIER_BASE = (\<lambda>c. c = thumbs_up \<or> c = thumbs_up_dark),
      add_num_commas = (\<lambda>n. replicate n 0x7C)\<rparr>"

definition phrases :: "string list \<Rightarrow> annotation" where
  "phrases ps = \<lparr>ann_default = Some (map str ps), ann_tts = None\<rparr>"

definition demo_files :: data_files where
  "demo_files =
     \<lparr>ranked_tsv = [(grinning_face, 1), (cat_face, 50), (thumbs_up, 7)],
      annotations =
        [(sparkles, phrases [''happy'']),
         (cat_face, phrases [''cat'', ''Happy'']),
         (grinning_face, phrases [''grinning face'', ''happy'']),
         (frowning_unqualified, phrases [''sad'']),
         (flag_letter_a, phrases [''flag''])],
      annotationsDerived =
        [(thumbs_up_dark, phrases [''happy'']),
         (thumbs_up, phrases [''happy'', ''ok''])],
      nouns = [(str ''Cat'', \<lparr>plural = Some (str ''Cats'')\<rparr>)]\<rparr>"

text \<open>
  The scenario of the specification: the rank table holds the grinning face at 1 and
  the cat face at 50, and the one annotated character is the grinning face.
\<close>

definition example_files :: data_files where
  "example_files =
     \<lparr>ranked_tsv = [(grinning_face, 1), (cat_face, 50)],
      annotations = [(grinning_face, phrases [''grinning face'', ''happy''])],
      annotationsDerived = [],
      nouns = []\<rparr>"

text \<open>
  A cat annotated with \<open>cat\<close> and \<open>Cats\<close>, and the noun \<open>Cat\<close> with the plural \<open>Cats\<close>.
\<close>

definition plural_files :: data_files where
  "plural_files =
     \<lparr>ranked_tsv = [(cat_face, 50)],
      annotations = [(cat_face, phrases [''cat'', ''Cats''])],
      annotationsDerived = [],
      nouns = [(str ''Cat'', \<lparr>plural = Some (str ''Cats'')\<rparr>)]\<rparr>"

text \<open>A keyword table and a plural map to run the linkage on.\<close>

definition demo_keyword_dict :: "(pystr, nat) pydict" where
  "demo_keyword_dict = [(str ''happy'', 0), (str ''cat'', 1), (str ''ok'', 2)]"

definition demo_plurals :: "(pystr, pystr) pydict" where
  "demo_plurals = [(str ''cats'', str ''cat'')]"

text \<open>The suggestions that the demo produces.\<close>

definition e_sparkles :: entry where
  "e_sparkles = \<lparr>emoji = sparkles, is_base = False, rank = None\<rparr>"

definition e_cat :: entry where
  "e_cat = \<lparr>emoji = cat_face, is_base = False, rank = Some 50\<rparr>"

definition e_grinning :: entry where
  "e_grinning = \<lparr>emoji = grinning_face, is_base = False, rank = Some 1\<rparr>"

definition e_thumbs :: entry where
  "e_thumbs = \<lparr>emoji = thumbs_up, is_base = True, rank = Some 7\<rparr>"

section \<open>Dictionaries\<close>

lemma dict_get_set: "dict_get (dict_set d k v) k' = (if k' = k then Some v else dict_get d k')"
  by (simp add: dict_get_def dict_set_def update_conv')

lemma dict_has_iff: "dict_has d k \<longleftrightarrow> dict_get d k \<noteq> None"
  by (simp add: dict_has_def dict_get_def dict_keys_def map_of_eq_None_iff)

lemma dict_set_new: "\<not> dict_has d k \<Longrightarrow> dict_set d k v = d @ [(k, v)]"
  by (induction d) (auto simp: dict_has_def dict_set_def dict_keys_def)

lemma dict_set_old_keys: "dict_has d k \<Longrightarrow> dict_keys (dict_set d k v) = dict_keys d"
  by (induction d) (auto simp: dict_has_def dict_set_def dict_keys_def)

lemma dict_keys_set:
  "dict_keys (dict_set d k v) = (if dict_has d k then dict_keys d else dict_keys d @ [k])"
  by (simp add: dict_set_new dict_set_old_keys) (simp add: dict_keys_def)

lemma dict_set_distinct: "distinct (dict_keys d) \<Longrightarrow> distinct (dict_keys (dict_set d k v))"
  by (simp add: dict_keys_def dict_set_def distinct_update)

lemma dict_values_set: "set (dict_values (dict_set d k v)) \<subseteq> insert v (set (dict_values d))"
  by (induction d) (auto simp: dict_set_def dict_values_def)

lemma dict_get_in: "dict_get d k = Some v \<Longrightarrow> (k, v) \<in> set d"
  by (simp add: dict_get_def map_of_SomeD)

lemma dict_get_value: "dict_get d k = Some v \<Longrightarrow> v \<in> set (dict_values d)"
  by (force simp: dict_values_def dest: dict_get_in)

lemma dict_in_get: "distinct (dict_keys d) \<Longrightarrow> (k, v) \<in> set d \<Longrightarrow> dict_get d k = Some v"
  by (simp add: dict_get_def dict_keys_def)

section \<open>Sorting and cutting in place\<close>

lemma sort_rank_key: "sort_rank e = key_of_rank (rank e)"
  by (simp add: sort_rank_def key_of_rank_def)

lemma key_of_rank_inj: "key_of_rank r = key_of_rank r' \<longleftrightarrow> r = r'"
  by (auto simp: key_of_rank_def split: option.splits)

lemma cap_is_take: "\<exists>m. cap_emojis epk l = take m l"
proof (cases epk)
  case None
  then have "cap_emojis epk l = take (length l) l" by (simp add: cap_emojis_def)
  then show ?thesis by blast
next
  case (Some k)
  show ?thesis
  proof (cases "k \<noteq> 0 \<and> int (length l) > k")
    case True
    then show ?thesis using Some by (auto simp: cap_emojis_def slice_upto_def)
  next
    case False
    then have "cap_emojis epk l = take (length l) l" using Some by (auto simp: cap_emojis_def)
    then show ?thesis by blast
  qed
qed

lemma cap_positive: "0 < k \<Longrightarrow> cap_emojis (Some k) l = take (nat k) l"
  by (auto simp: cap_emojis_def slice_upto_def)

lemma sort_take_sorted:
  "sort_key f (take m (sort_key f l)) = take m (sort_key f l)"
  by (rule sort_key_id_if_sorted) (simp add: take_map [symmetric] sorted_wrt_take)

lemma length_fold_sort: "length (fold (sort_emojis epk) as st) = length st"
  by (induction as arbitrary: st) (auto simp: sort_emojis_def)

lemma fold_sort_other: "a \<notin> set as \<Longrightarrow> fold (sort_emojis epk) as st ! a = st ! a"
  by (induction as arbitrary: st) (auto simp: sort_emojis_def)

lemma fold_sort_take:
  "a < length st \<Longrightarrow> a \<in> set as \<Longrightarrow>
   \<exists>m. fold (sort_emojis epk) as st ! a = take m (sort_key sort_rank (st ! a))"
proof (induction as arbitrary: st)
  case Nil
  then show ?case by simp
next
  case (Cons x as)
  let ?st1 = "sort_emojis epk x st"
  have len: "a < length ?st1" using Cons.prems by (simp add: sort_emojis_def)
  show ?case
  proof (cases "a = x")
    case True
    obtain m where m: "cap_emojis epk (sort_key sort_rank (st ! a)) = take m (sort_key sort_rank (st ! a))"
      using cap_is_take by blast
    have st1: "?st1 ! a = take m (sort_key sort_rank (st ! a))"
      using True Cons.prems m by (simp add: sort_emojis_def)
    show ?thesis
    proof (cases "a \<in> set as")
      case True
      from Cons.IH [OF len True] obtain m' where
        "fold (sort_emojis epk) as ?st1 ! a = take m' (sort_key sort_rank (?st1 ! a))" by blast
      then have "fold (sort_emojis epk) as ?st1 ! a = take (min m' m) (sort_key sort_rank (st ! a))"
        by (simp add: st1 sort_take_sorted)
      then show ?thesis by auto
    next
      case False
      then show ?thesis using st1 by (auto simp: fold_sort_other)
    qed
  next
    case False
    then have in_as: "a \<in> set as" using Cons.prems by simp
    have same: "?st1 ! a = st ! a" using False by (simp add: sort_emojis_def)
    from Cons.IH [OF len in_as] show ?thesis by (simp add: same)
  qed
qed

lemma fold_sort_exact:
  assumes idem: "\<And>l. cap_emojis epk (sort_key sort_rank (cap_emojis epk (sort_key sort_rank l)))
            = cap_emojis epk (sort_key sort_rank l)"
  shows "a < length st \<Longrightarrow> a \<in> set as \<Longrightarrow>
   fold (sort_emojis epk) as st ! a = cap_emojis epk (sort_key sort_rank (st ! a))"
proof (induction as arbitrary: st)
  case Nil
  then show ?case by simp
next
  case (Cons x as)
  let ?st1 = "sort_emojis epk x st"
  have len: "a < length ?st1" using Cons.prems by (simp add: sort_emojis_def)
  show ?case
  proof (cases "a = x")
    case True
    have st1: "?st1 ! a = cap_emojis epk (sort_key sort_rank (st ! a))"
      using True Cons.prems by (simp add: sort_emojis_def)
    show ?thesis
    proof (cases "a \<in> set as")
      case True
      from Cons.IH [OF len True] show ?thesis by (simp add: st1 idem)
    next
      case False
      then show ?thesis using st1 by (auto simp: fold_sort_other)
    qed
  next
    case False
    then have in_as: "a \<in> set as" using Cons.prems by simp
    have same: "?st1 ! a = st ! a" using False by (simp add: sort_emojis_def)
    from Cons.IH [OF len in_as] show ?thesis by (simp add: same)
  qed
qed

lemma cap_sort_idem_positive:
  "0 < k \<Longrightarrow> cap_emojis (Some k) (sort_key sort_rank (cap_emojis (Some k) (sort_key sort_rank l)))
     = cap_emojis (Some k) (sort_key sort_rank l)"
  by (simp add: cap_positive sort_take_sorted)

section \<open>What the scan maintains\<close>

lemma wf_empty: "wf_lexicon empty_lexicon"
  by (simp add: wf_lexicon_def empty_lexicon_def dict_keys_def dict_values_def)

lemma wf_setdefault_append: "wf_lexicon lx \<Longrightarrow> wf_lexicon (setdefault_append lx k e)"
proof (cases "dict_get (keyword_dict lx) k")
  case None
  assume wf: "wf_lexicon lx"
  have nh: "\<not> dict_has (keyword_dict lx) k" using None by (simp add: dict_has_iff)
  show ?thesis using wf None nh
    by (auto simp: wf_lexicon_def setdefault_append_def dict_set_new dict_keys_def
        dict_values_def dict_has_def list_all_iff)
next
  case (Some a)
  assume "wf_lexicon lx"
  then show ?thesis using Some
    by (auto simp: wf_lexicon_def setdefault_append_def)
qed

lemma all_entries_update:
  "all_entries P st \<Longrightarrow> list_all P l \<Longrightarrow> all_entries P (st[a := l])"
  by (auto simp: all_entries_def list_all_iff dest!: subsetD [OF set_update_subset_insert])

lemma all_entries_nth: "all_entries P st \<Longrightarrow> a < length st \<Longrightarrow> list_all P (st ! a)"
  by (auto simp: all_entries_def list_all_iff)

lemma all_entries_setdefault_append:
  assumes "all_entries P (store lx)" and "P e"
  shows "all_entries P (store (setdefault_append lx k e))"
proof (cases "dict_get (keyword_dict lx) k")
  case None
  then show ?thesis using assms by (simp add: setdefault_append_def all_entries_def)
next
  case (Some a)
  show ?thesis
  proof (cases "a < length (store lx)")
    case True
    then have "list_all P (store lx ! a @ [e])" using assms by (simp add: all_entries_nth)
    then show ?thesis using Some assms by (simp add: setdefault_append_def all_entries_update)
  next
    case False
    then have "(store lx)[a := store lx ! a @ [e]] = store lx" by (simp add: list_update_beyond)
    then show ?thesis using Some assms by (simp add: setdefault_append_def)
  qed
qed

lemma wf_add_keywords: "wf_lexicon lx \<Longrightarrow> wf_lexicon (add_keywords ext ign e ps lx)"
  by (induction ps arbitrary: lx) (simp_all add: Let_def wf_setdefault_append)

lemma all_entries_add_keywords:
  "all_entries P (store lx) \<Longrightarrow> P e \<Longrightarrow> all_entries P (store (add_keywords ext ign e ps lx))"
  by (induction ps arbitrary: lx) (simp_all add: Let_def all_entries_setdefault_append)

lemma keys_setdefault_append:
  "set (dict_keys (keyword_dict (setdefault_append lx k e))) = insert k (set (dict_keys (keyword_dict lx)))"
proof (cases "dict_get (keyword_dict lx) k")
  case None
  then have "\<not> dict_has (keyword_dict lx) k" by (simp add: dict_has_iff)
  then show ?thesis using None by (simp add: setdefault_append_def dict_keys_set)
next
  case (Some a)
  then have "dict_has (keyword_dict lx) k" by (simp add: dict_has_iff)
  then show ?thesis using Some by (auto simp: setdefault_append_def dict_has_def)
qed

lemma keys_add_keywords:
  "set (dict_keys (keyword_dict (add_keywords ext ign e ps lx))) =
   set (dict_keys (keyword_dict lx)) \<union> set (accepted_keywords ext ign ps)"
  by (induction ps arbitrary: lx)
     (auto simp: Let_def keys_setdefault_append accepted_keywords_def)

lemma encode_utf8_error: "encode_utf8 c = Inl err \<Longrightarrow> err = UnicodeEncodeError"
  by (induction c arbitrary: err) (auto split: option.splits sum.splits)

lemma over_limit_iff:
  "over_limit n r \<longleftrightarrow>
   \<not> (case n of None \<Rightarrow> True | Some m \<Rightarrow> m = 0 \<or> (case r of None \<Rightarrow> False | Some i \<Rightarrow> i \<le> m))"
  by (auto simp: over_limit_def split: option.splits)

lemma process_char_pass:
  "passes_filters ext n pop c \<Longrightarrow>
   process_char ext n ign pop (c, ann) lx =
     (case ann_default ann of
        None \<Rightarrow> Inl KeyError
      | Some ps \<Rightarrow>
          Inr (add_keywords ext ign
                 \<lparr>emoji = c, is_base = EMOJI_MODIFIER_BASE ext c, rank = dict_get pop c\<rparr> ps lx))"
  by (auto simp: passes_filters_def process_char_def over_limit_iff Let_def
      split: option.splits sum.splits)

lemma process_char_fail:
  "\<not> passes_filters ext n pop c \<Longrightarrow>
   process_char ext n ign pop (c, ann) lx =
     (if EMOJI_DATA ext c \<noteq> None \<and> encode_utf8 c = Inl UnicodeEncodeError
      then Inl UnicodeEncodeError else Inr lx)"
  by (auto simp: passes_filters_def process_char_def over_limit_iff Let_def
      split: option.splits sum.splits dest: encode_utf8_error)

lemma process_char_wf:
  assumes "process_char ext n ign pop ca lx = Inr lx'" and "wf_lexicon lx"
  shows "wf_lexicon lx'"
proof (cases "passes_filters ext n pop (fst ca)")
  case True
  from process_char_pass [OF True, of ign "snd ca" lx] assms show ?thesis
    by (auto simp: wf_add_keywords split: option.splits)
next
  case False
  from process_char_fail [OF False, of ign "snd ca" lx] assms show ?thesis
    by (auto split: if_splits)
qed

lemma process_char_entries:
  assumes "process_char ext n ign pop ca lx = Inr lx'"
    and "all_entries (scanned_entry ext n pop) (store lx)"
  shows "all_entries (scanned_entry ext n pop) (store lx')"
proof (cases "passes_filters ext n pop (fst ca)")
  case True
  have ok: "scanned_entry ext n pop
     \<lparr>emoji = fst ca, is_base = EMOJI_MODIFIER_BASE ext (fst ca), rank = dict_get pop (fst ca)\<rparr>"
    using True by (simp add: scanned_entry_def)
  from process_char_pass [OF True, of ign "snd ca" lx] assms ok show ?thesis
    by (auto simp: all_entries_add_keywords split: option.splits)
next
  case False
  from process_char_fail [OF False, of ign "snd ca" lx] assms show ?thesis
    by (auto split: if_splits)
qed

lemma scan_chars_wf:
  "scan_chars ext n ign pop cas lx = Inr lx' \<Longrightarrow> wf_lexicon lx \<Longrightarrow> wf_lexicon lx'"
  by (induction cas arbitrary: lx) (auto split: sum.splits dest: process_char_wf)

lemma scan_chars_entries:
  "scan_chars ext n ign pop cas lx = Inr lx' \<Longrightarrow>
   all_entries (scanned_entry ext n pop) (store lx) \<Longrightarrow>
   all_entries (scanned_entry ext n pop) (store lx')"
  by (induction cas arbitrary: lx) (auto split: sum.splits dest: process_char_entries)

lemma scan_files_wf: "scan_files ext files n ign = Inr lx \<Longrightarrow> wf_lexicon lx"
  by (auto simp: scan_files_def Let_def split: sum.splits
      dest!: scan_chars_wf intro: wf_empty)

lemma scan_files_entries:
  "scan_files ext files n ign = Inr lx \<Longrightarrow>
   all_entries (scanned_entry ext n (popularity_dict (ranked_tsv files))) (store lx)"
proof -
  assume a: "scan_files ext files n ign = Inr lx"
  have e: "all_entries (scanned_entry ext n (popularity_dict (ranked_tsv files))) (store empty_lexicon)"
    by (simp add: all_entries_def empty_lexicon_def)
  from a obtain lx1 where
    1: "scan_chars ext n ign (popularity_dict (ranked_tsv files)) (annotations files) empty_lexicon = Inr lx1"
    and 2: "scan_chars ext n ign (popularity_dict (ranked_tsv files)) (annotationsDerived files) lx1 = Inr lx"
    by (auto simp: scan_files_def Let_def split: sum.splits)
  from scan_chars_entries [OF 2 scan_chars_entries [OF 1 e]] show ?thesis .
qed

lemma setdefault_append_has:
  "dict_has (keyword_dict (setdefault_append lx k e)) k' \<longleftrightarrow> k' = k \<or> dict_has (keyword_dict lx) k'"
  using keys_setdefault_append [of lx k e] by (auto simp: dict_has_def)

lemma add_keywords_not_ignored:
  "k \<in> set ign \<Longrightarrow> \<not> dict_has (keyword_dict lx) k \<Longrightarrow>
   \<not> dict_has (keyword_dict (add_keywords ext ign e ps lx)) k"
  using keys_add_keywords [of ext ign e ps lx] by (auto simp: dict_has_def accepted_keywords_def)

lemma process_char_not_ignored:
  assumes "process_char ext n ign pop ca lx = Inr lx'" and "k \<in> set ign"
    and "\<not> dict_has (keyword_dict lx) k"
  shows "\<not> dict_has (keyword_dict lx') k"
proof (cases "passes_filters ext n pop (fst ca)")
  case True
  from process_char_pass [OF True, of ign "snd ca" lx] assms show ?thesis
    by (auto simp: add_keywords_not_ignored split: option.splits)
next
  case False
  from process_char_fail [OF False, of ign "snd ca" lx] assms show ?thesis
    by (auto split: if_splits)
qed

lemma scan_chars_not_ignored:
  "scan_chars ext n ign pop cas lx = Inr lx' \<Longrightarrow> k \<in> set ign \<Longrightarrow>
   \<not> dict_has (keyword_dict lx) k \<Longrightarrow> \<not> dict_has (keyword_dict lx') k"
  by (induction cas arbitrary: lx) (auto split: sum.splits dest: process_char_not_ignored)

lemma scan_files_not_ignored:
  "scan_files ext files n ign = Inr lx \<Longrightarrow> k \<in> set ign \<Longrightarrow> \<not> dict_has (keyword_dict lx) k"
proof -
  assume a: "scan_files ext files n ign = Inr lx" and k: "k \<in> set ign"
  have e: "\<not> dict_has (keyword_dict empty_lexicon) k"
    by (simp add: empty_lexicon_def dict_has_def dict_keys_def)
  from a obtain lx1 where
    1: "scan_chars ext n ign (popularity_dict (ranked_tsv files)) (annotations files) empty_lexicon = Inr lx1"
    and 2: "scan_chars ext n ign (popularity_dict (ranked_tsv files)) (annotationsDerived files) lx1 = Inr lx"
    by (auto simp: scan_files_def Let_def split: sum.splits)
  from scan_chars_not_ignored [OF 2 k scan_chars_not_ignored [OF 1 k e]] show ?thesis .
qed

section \<open>The plural linkage\<close>

lemma link_plural_present: "dict_has kd p \<Longrightarrow> link_plural (p, s) kd = kd"
  by (simp add: link_plural_def)

lemma link_plural_no_singular: "\<not> dict_has kd s \<Longrightarrow> link_plural (p, s) kd = kd"
  by (simp add: link_plural_def)

lemma link_plural_new:
  "\<not> dict_has kd p \<Longrightarrow> dict_get kd s = Some a \<Longrightarrow> link_plural (p, s) kd = kd @ [(p, a)]"
  by (simp add: link_plural_def dict_has_iff dict_set_new)

lemma link_plural_cases:
  "link_plural ps kd = kd \<or>
   (\<exists>a. \<not> dict_has kd (fst ps) \<and> dict_get kd (snd ps) = Some a \<and> link_plural ps kd = kd @ [(fst ps, a)])"
  by (cases "dict_get kd (snd ps)") (auto simp: link_plural_def dict_has_iff dict_set_new)

lemma dict_get_append_new:
  "\<not> dict_has kd p \<Longrightarrow> dict_get (kd @ [(p, a)]) k = (if k = p then Some a else dict_get kd k)"
  using dict_get_set [of kd p a k] by (simp add: dict_set_new)

lemma link_plural_get_old: "dict_get kd k = Some a \<Longrightarrow> dict_get (link_plural ps kd) k = Some a"
  using link_plural_cases [of ps kd] by (auto simp: dict_get_append_new dict_has_iff)

lemma link_plurals_get_old:
  "dict_get kd k = Some a \<Longrightarrow> dict_get (link_plurals pairs kd) k = Some a"
  unfolding link_plurals_def
  by (induction pairs arbitrary: kd) (auto intro: link_plural_get_old)

lemma link_plurals_new:
  "dict_has (link_plurals pairs kd) k \<Longrightarrow> \<not> dict_has kd k \<Longrightarrow>
   \<exists>s. (k, s) \<in> set pairs \<and> dict_get (link_plurals pairs kd) k \<noteq> None \<and>
       dict_get (link_plurals pairs kd) s = dict_get (link_plurals pairs kd) k"
proof (induction pairs arbitrary: kd)
  case Nil
  then show ?case by (simp add: link_plurals_def)
next
  case (Cons ps pairs)
  have unf: "link_plurals (ps # pairs) kd = link_plurals pairs (link_plural ps kd)"
    by (simp add: link_plurals_def)
  show ?case
  proof (cases "dict_has (link_plural ps kd) k")
    case True
    with Cons.prems(2) link_plural_cases [of ps kd] obtain a where
      a: "\<not> dict_has kd (fst ps)" "dict_get kd (snd ps) = Some a"
         "link_plural ps kd = kd @ [(fst ps, a)]"
      by auto
    from True a Cons.prems(2) have k: "k = fst ps"
      by (auto simp: dict_has_iff dict_get_append_new split: if_splits)
    have gp: "dict_get (link_plural ps kd) (fst ps) = Some a"
      using a by (simp add: dict_get_append_new)
    have gs: "dict_get (link_plural ps kd) (snd ps) = Some a"
      using a by (auto simp: dict_get_append_new)
    have "dict_get (link_plurals pairs (link_plural ps kd)) (fst ps) = Some a"
      and "dict_get (link_plurals pairs (link_plural ps kd)) (snd ps) = Some a"
      using gp gs by (auto intro: link_plurals_get_old)
    then show ?thesis unfolding unf k
      by (intro exI [of _ "snd ps"]) simp
  next
    case False
    from Cons.IH [OF _ False] Cons.prems(1) show ?thesis unfolding unf by auto
  qed
qed

lemma link_plural_wf:
  "distinct (dict_keys kd) \<Longrightarrow> list_all (\<lambda>a. a < n) (dict_values kd) \<Longrightarrow>
   distinct (dict_keys (link_plural ps kd)) \<and> list_all (\<lambda>a. a < n) (dict_values (link_plural ps kd))"
proof -
  assume d: "distinct (dict_keys kd)" and v: "list_all (\<lambda>a. a < n) (dict_values kd)"
  from link_plural_cases [of ps kd] show ?thesis
  proof
    assume "link_plural ps kd = kd"
    then show ?thesis using d v by simp
  next
    assume "\<exists>a. \<not> dict_has kd (fst ps) \<and> dict_get kd (snd ps) = Some a \<and>
      link_plural ps kd = kd @ [(fst ps, a)]"
    then obtain a where a: "\<not> dict_has kd (fst ps)" "dict_get kd (snd ps) = Some a"
      "link_plural ps kd = kd @ [(fst ps, a)]" by blast
    from a(2) have "a \<in> set (dict_values kd)" by (rule dict_get_value)
    then have "a < n" using v by (simp add: list_all_iff)
    then show ?thesis using a d v
      by (simp add: dict_keys_def dict_values_def dict_has_def)
  qed
qed

lemma link_plurals_wf:
  "distinct (dict_keys kd) \<Longrightarrow> list_all (\<lambda>a. a < n) (dict_values kd) \<Longrightarrow>
   distinct (dict_keys (link_plurals pairs kd)) \<and>
   list_all (\<lambda>a. a < n) (dict_values (link_plurals pairs kd))"
  unfolding link_plurals_def
  by (induction pairs arbitrary: kd) (auto dest: link_plural_wf)

lemma link_plural_absent: "\<not> dict_has kd k \<Longrightarrow> k \<noteq> fst ps \<Longrightarrow> \<not> dict_has (link_plural ps kd) k"
  using link_plural_cases [of ps kd] by (auto simp: dict_has_iff dict_get_append_new)

lemma link_plurals_fills:
  "distinct (dict_keys pairs) \<Longrightarrow> (p, s) \<in> set pairs \<Longrightarrow> \<not> dict_has kd p \<Longrightarrow>
   dict_get kd s = Some a \<Longrightarrow> dict_get (link_plurals pairs kd) p = Some a"
proof (induction pairs arbitrary: kd)
  case Nil
  then show ?case by simp
next
  case (Cons q pairs)
  have unf: "link_plurals (q # pairs) kd = link_plurals pairs (link_plural q kd)"
    by (simp add: link_plurals_def)
  show ?case
  proof (cases "q = (p, s)")
    case True
    have "link_plural (p, s) kd = kd @ [(p, a)]"
      using Cons.prems by (simp add: link_plural_new)
    then have "dict_get (link_plural q kd) p = Some a"
      using True Cons.prems by (simp add: dict_get_append_new)
    then show ?thesis unfolding unf by (rule link_plurals_get_old)
  next
    case False
    then have mem: "(p, s) \<in> set pairs" using Cons.prems by simp
    have d: "distinct (dict_keys pairs)" using Cons.prems by (simp add: dict_keys_def)
    have "fst q \<notin> fst ` set pairs" using Cons.prems(1) by (simp add: dict_keys_def)
    moreover have "p \<in> fst ` set pairs" using mem by (rule image_eqI [rotated]) simp
    ultimately have "p \<noteq> fst q" by blast
    then have np: "\<not> dict_has (link_plural q kd) p"
      using Cons.prems by (simp add: link_plural_absent)
    have gs: "dict_get (link_plural q kd) s = Some a"
      using Cons.prems by (simp add: link_plural_get_old)
    from Cons.IH [OF d mem np gs] show ?thesis unfolding unf .
  qed
qed

lemma plurals_to_singulars_distinct:
  "plurals_to_singulars_dict ext rows acc = Inr pairs \<Longrightarrow> distinct (dict_keys acc) \<Longrightarrow>
   distinct (dict_keys pairs)"
  by (induction rows arbitrary: acc) (auto split: option.splits if_splits intro: dict_set_distinct)

lemma build_lexicon_wf: "build_lexicon ext files n ign = Inr lx \<Longrightarrow> wf_lexicon lx"
  by (auto simp: build_lexicon_def wf_lexicon_def split: sum.splits
      dest!: scan_files_wf dest: link_plurals_wf)

lemma build_lexicon_entries:
  "build_lexicon ext files n ign = Inr lx \<Longrightarrow>
   all_entries (scanned_entry ext n (popularity_dict (ranked_tsv files))) (store lx)"
  by (auto simp: build_lexicon_def split: sum.splits dest!: scan_files_entries)

section \<open>The sorted table\<close>

lemma shape_eq: "shape ebr t = map (\<lambda>(k, v). (k, map (as_suggestion ebr) v)) t"
  by (auto simp: shape_def as_suggestion_def)

lemma gen_emoji_lexicon_Inr:
  assumes "gen_emoji_lexicon ext files lang n epk ig ebr v = Inr (out, table)"
  obtains ign lx where "keywords_to_ignore ext ig = Inr ign"
    and "build_lexicon ext files n ign = Inr lx"
    and "unsorted_table ext files n ig = Inr (resolve lx)"
    and "table = shape ebr (resolve (sort_lexicon epk lx))"
  using assms
  by (auto simp: gen_emoji_lexicon_def ranked_table_def unsorted_table_def split: sum.splits)

lemma keyword_dict_sort [simp]: "keyword_dict (sort_lexicon epk lx) = keyword_dict lx"
  by (simp add: sort_lexicon_def)

lemma wf_address:
  "wf_lexicon lx \<Longrightarrow> (kw, a) \<in> set (keyword_dict lx) \<Longrightarrow>
   a < length (store lx) \<and> a \<in> set (dict_values (keyword_dict lx))"
  by (force simp: wf_lexicon_def list_all_iff dict_values_def)

lemma store_sort_take:
  assumes "wf_lexicon lx" and "(kw, a) \<in> set (keyword_dict lx)"
  shows "\<exists>m. store (sort_lexicon epk lx) ! a = take m (sort_key sort_rank (store lx ! a))"
  using wf_address [OF assms] by (simp add: sort_lexicon_def fold_sort_take)

lemma store_sort_exact:
  assumes "0 < k" and "wf_lexicon lx" and "(kw, a) \<in> set (keyword_dict lx)"
  shows "store (sort_lexicon (Some k) lx) ! a = take (nat k) (sort_key sort_rank (store lx ! a))"
proof -
  have "store (sort_lexicon (Some k) lx) ! a = cap_emojis (Some k) (sort_key sort_rank (store lx ! a))"
    using wf_address [OF assms(2,3)] cap_sort_idem_positive [OF assms(1)]
    by (simp add: sort_lexicon_def fold_sort_exact)
  then show ?thesis using assms(1) by (simp add: cap_positive)
qed

lemma resolve_sort_exact:
  assumes "0 < k" and "wf_lexicon lx"
  shows "resolve (sort_lexicon (Some k) lx) =
         map (\<lambda>(kw, l). (kw, take (nat k) (sort_key sort_rank l))) (resolve lx)"
  using store_sort_exact [OF assms] by (auto simp: resolve_def)

lemma sort_rank_filter:
  "filter (\<lambda>e. rank e = r) (sort_key sort_rank l) = filter (\<lambda>e. rank e = r) l"
proof -
  have "filter (\<lambda>e. sort_rank e = key_of_rank r) (sort_key sort_rank l)
        = filter (\<lambda>e. sort_rank e = key_of_rank r) l"
    by (rule sort_key_stable)
  then show ?thesis by (simp add: sort_rank_key key_of_rank_inj)
qed

lemma sorted_take_drop:
  "sorted (map f xs) \<Longrightarrow> x \<in> set (take m xs) \<Longrightarrow> y \<in> set (drop m xs) \<Longrightarrow> f x \<le> f y"
proof -
  assume s: "sorted (map f xs)" and x: "x \<in> set (take m xs)" and y: "y \<in> set (drop m xs)"
  have "sorted (map f (take m xs) @ map f (drop m xs))" using s
    by (simp add: map_append [symmetric] del: map_append)
  then show ?thesis using x y by (auto simp: sorted_append)
qed

lemma popularity_as_suggestion:
  "scanned_entry ext n (popularity_dict (ranked_tsv files)) e \<Longrightarrow>
   popularity files (as_suggestion ebr e) = rank e"
  by (simp add: scanned_entry_def popularity_def as_suggestion_def)

lemma sorted_unranked_last:
  assumes "sorted (map sort_rank l)" and "i < j" and "j < length l" and "rank (l ! i) = None"
  shows "rank (l ! j) = None"
proof -
  have "sort_rank (l ! i) \<le> sort_rank (l ! j)"
    using assms(1-3) sorted_nth_mono [of "map sort_rank l" i j] by simp
  then show ?thesis using assms(4)
    by (cases "rank (l ! j)") (simp_all add: sort_rank_def)
qed

lemma sorted_take_sort: "sorted (map sort_rank (take m (sort_key sort_rank l)))"
  by (simp add: take_map [symmetric] sorted_wrt_take)

lemma prefix_filter_take_sort:
  "prefix (filter (\<lambda>e. rank e = r) (take m (sort_key sort_rank l))) (filter (\<lambda>e. rank e = r) l)"
proof -
  have "prefix (filter (\<lambda>e. rank e = r) (take m (sort_key sort_rank l)))
          (filter (\<lambda>e. rank e = r) (sort_key sort_rank l))"
    by (rule filter_mono_prefix) (rule take_is_prefix)
  then show ?thesis by (simp add: sort_rank_filter)
qed

lemma final_list_scanned:
  assumes "wf_lexicon lx" and "(kw, a) \<in> set (keyword_dict lx)"
    and "all_entries P (store lx)"
  shows "list_all P (store (sort_lexicon epk lx) ! a)"
proof -
  from store_sort_take [OF assms(1,2)] obtain m where
    m: "store (sort_lexicon epk lx) ! a = take m (sort_key sort_rank (store lx ! a))" by blast
  have "list_all P (store lx ! a)"
    using assms wf_address [OF assms(1,2)] by (simp add: all_entries_nth)
  then show ?thesis unfolding m
    by (auto simp: list_all_iff dest: in_set_takeD)
qed

lemma cap_sort_idem_off:
  "epk = None \<or> epk = Some 0 \<Longrightarrow>
   cap_emojis epk (sort_key sort_rank (cap_emojis epk (sort_key sort_rank l)))
     = cap_emojis epk (sort_key sort_rank l)"
  by (auto simp: cap_emojis_def sort_key_id_if_sorted)

lemma store_sort_off:
  assumes "epk = None \<or> epk = Some 0" and "wf_lexicon lx" and "(kw, a) \<in> set (keyword_dict lx)"
  shows "store (sort_lexicon epk lx) ! a = sort_key sort_rank (store lx ! a)"
proof -
  have "store (sort_lexicon epk lx) ! a = cap_emojis epk (sort_key sort_rank (store lx ! a))"
    using wf_address [OF assms(2,3)] cap_sort_idem_off [OF assms(1)]
    by (simp add: sort_lexicon_def fold_sort_exact)
  then show ?thesis using assms(1) by (auto simp: cap_emojis_def)
qed

lemma sort_take_drop:
  "x \<in> set (take m (sort_key f l)) \<Longrightarrow> y \<in> set (drop m (sort_key f l)) \<Longrightarrow> f x \<le> f y"
  by (rule sorted_take_drop [of f "sort_key f l"]) simp_all

section \<open>Caps of zero\<close>

lemma over_limit_zero: "over_limit (Some 0) r = over_limit None r"
  by (simp add: over_limit_def)

lemma process_char_zero: "process_char ext (Some 0) ign pop ca lx = process_char ext None ign pop ca lx"
  by (simp add: process_char_def over_limit_zero Let_def split: option.splits sum.splits)

lemma scan_chars_zero: "scan_chars ext (Some 0) ign pop cas lx = scan_chars ext None ign pop cas lx"
  by (induction cas arbitrary: lx) (simp_all add: process_char_zero split: sum.splits)

lemma build_lexicon_zero: "build_lexicon ext files (Some 0) ign = build_lexicon ext files None ign"
  by (simp add: build_lexicon_def scan_files_def scan_chars_zero Let_def split: sum.splits)

lemma sort_emojis_zero: "sort_emojis (Some 0) = sort_emojis None"
  by (rule ext)+ (simp add: sort_emojis_def cap_emojis_def)

lemma sort_lexicon_zero: "sort_lexicon (Some 0) lx = sort_lexicon None lx"
  by (simp add: sort_lexicon_def sort_emojis_zero)

section \<open>The demo, evaluated\<close>

lemmas world_defs = demo_ext_def demo_files_def example_files_def plural_files_def phrases_def ascii_lower_def grinning_face_def
  cat_face_def thumbs_up_def thumbs_up_dark_def frowning_unqualified_def flag_letter_a_def
  sparkles_def e_sparkles_def e_cat_def e_grinning_def e_thumbs_def str_def

lemmas scan_defs = scan_files_def process_char_def popularity_dict_def dict_set_def dict_get_def
  setdefault_append_def empty_lexicon_def over_limit_def py_split_def py_isspace_def
  utf8_scalar_def Let_def

lemmas link_defs = link_plurals_def link_plural_def dict_has_def dict_keys_def dict_get_def
  dict_set_def

lemmas sort_defs = sort_lexicon_def sort_emojis_def cap_emojis_def slice_upto_def
  dict_values_def sort_rank_def resolve_def

lemma demo_scan:
  "scan_files demo_ext demo_files None [] =
     Inr \<lparr>keyword_dict = [(str ''happy'', 0), (str ''cat'', 1), (str ''ok'', 2)],
          store = [[e_sparkles, e_cat, e_grinning, e_thumbs], [e_cat], [e_thumbs]]\<rparr>"
  by (simp add: scan_defs world_defs)

lemma demo_pairs:
  "plurals_to_singulars_dict demo_ext (nouns demo_files) [] = Inr [(str ''cats'', str ''cat'')]"
  by (simp add: world_defs dict_set_def)

lemma demo_build:
  "build_lexicon demo_ext demo_files None [] =
     Inr \<lparr>keyword_dict = [(str ''happy'', 0), (str ''cat'', 1), (str ''ok'', 2), (str ''cats'', 1)],
          store = [[e_sparkles, e_cat, e_grinning, e_thumbs], [e_cat], [e_thumbs]]\<rparr>"
  by (simp add: build_lexicon_def demo_scan demo_pairs link_defs str_def)

lemma demo_unsorted:
  "unsorted_table demo_ext demo_files None Ignore_None =
     Inr [(str ''happy'', [e_sparkles, e_cat, e_grinning, e_thumbs]), (str ''cat'', [e_cat]),
          (str ''ok'', [e_thumbs]), (str ''cats'', [e_cat])]"
  by (simp add: unsorted_table_def keywords_to_ignore_def demo_build resolve_def)

lemma demo_ranked:
  "ranked_table demo_ext demo_files None None Ignore_None =
     Inr [(str ''happy'', [e_grinning, e_thumbs, e_cat, e_sparkles]), (str ''cat'', [e_cat]),
          (str ''ok'', [e_thumbs]), (str ''cats'', [e_cat])]"
  by (simp add: ranked_table_def keywords_to_ignore_def demo_build sort_defs
      e_sparkles_def e_cat_def e_grinning_def e_thumbs_def)

lemma demo_ranked_cap:
  "ranked_table demo_ext demo_files None (Some 2) Ignore_None =
     Inr [(str ''happy'', [e_grinning, e_thumbs]), (str ''cat'', [e_cat]),
          (str ''ok'', [e_thumbs]), (str ''cats'', [e_cat])]"
  by (simp add: ranked_table_def keywords_to_ignore_def demo_build sort_defs
      e_sparkles_def e_cat_def e_grinning_def e_thumbs_def)

lemma demo_gen:
  "gen_emoji_lexicon demo_ext demo_files (str ''English'') None None Ignore_None True False =
     Inr ([], [(str ''happy'', map With_base_rank [e_grinning, e_thumbs, e_cat, e_sparkles]),
               (str ''cat'', [With_base_rank e_cat]),
               (str ''ok'', [With_base_rank e_thumbs]), (str ''cats'', [With_base_rank e_cat])])"
  by (simp add: gen_emoji_lexicon_def demo_ranked shape_def)

lemma demo_gen_cap:
  "gen_emoji_lexicon demo_ext demo_files (str ''English'') None (Some 2) Ignore_None False False =
     Inr ([], [(str ''happy'', [Emoji_only grinning_face, Emoji_only thumbs_up]),
               (str ''cat'', [Emoji_only cat_face]),
               (str ''ok'', [Emoji_only thumbs_up]), (str ''cats'', [Emoji_only cat_face])])"
  by (simp add: gen_emoji_lexicon_def demo_ranked_cap shape_def
      e_sparkles_def e_cat_def e_grinning_def e_thumbs_def)

lemma demo_scan_limit:
  "scan_files demo_ext demo_files (Some 10) [] =
     Inr \<lparr>keyword_dict = [(str ''happy'', 0), (str ''ok'', 1)],
          store = [[e_grinning, e_thumbs], [e_thumbs]]\<rparr>"
  by (simp add: scan_defs world_defs)

lemma demo_gen_limit:
  "gen_emoji_lexicon demo_ext demo_files (str ''English'') (Some 10) None Ignore_None True False =
     Inr ([], [(str ''happy'', [With_base_rank e_grinning, With_base_rank e_thumbs]),
               (str ''ok'', [With_base_rank e_thumbs])])"
  by (simp add: gen_emoji_lexicon_def ranked_table_def keywords_to_ignore_def build_lexicon_def
      demo_scan_limit demo_pairs link_defs sort_defs shape_def str_def
      e_sparkles_def e_cat_def e_grinning_def e_thumbs_def)

lemma example_build:
  "build_lexicon demo_ext example_files None [] =
     Inr \<lparr>keyword_dict = [(str ''happy'', 0)], store = [[e_grinning]]\<rparr>"
  by (simp add: build_lexicon_def scan_defs world_defs link_defs)

lemma example_ranked:
  "ranked_table demo_ext example_files None None Ignore_None = Inr [(str ''happy'', [e_grinning])]"
  by (simp add: ranked_table_def keywords_to_ignore_def example_build sort_defs)

lemma plural_ignore: "keywords_to_ignore demo_ext (Ignore_Str (str ''Cats'')) = Inr [str ''cats'']"
  by (simp add: keywords_to_ignore_def world_defs)

lemma plural_scan:
  "scan_files demo_ext plural_files None [str ''cats''] =
     Inr \<lparr>keyword_dict = [(str ''cat'', 0)], store = [[e_cat]]\<rparr>"
  by (simp add: scan_defs world_defs)

lemma plural_pairs:
  "plurals_to_singulars_dict demo_ext (nouns plural_files) [] = Inr [(str ''cats'', str ''cat'')]"
  by (simp add: world_defs dict_set_def)

lemma plural_build:
  "build_lexicon demo_ext plural_files None [str ''cats''] =
     Inr \<lparr>keyword_dict = [(str ''cat'', 0), (str ''cats'', 0)], store = [[e_cat]]\<rparr>"
  by (simp only: build_lexicon_def plural_scan plural_pairs sum.case)
     (simp add: link_defs str_def)

lemma plural_ranked:
  "ranked_table demo_ext plural_files None None (Ignore_Str (str ''Cats'')) =
     Inr [(str ''cat'', [e_cat]), (str ''cats'', [e_cat])]"
  by (simp only: ranked_table_def plural_ignore plural_build sum.case)
     (simp add: sort_defs)

lemma demo_pairs_plurals:
  "plurals_to_singulars_dict demo_ext (nouns demo_files) [] = Inr demo_plurals"
  by (simp add: demo_pairs demo_plurals_def)

lemma demo_link:
  "link_plurals demo_plurals demo_keyword_dict = demo_keyword_dict @ [(str ''cats'', 1)]"
  by (simp add: demo_plurals_def demo_keyword_dict_def link_defs str_def)

lemma demo_no_cats: "\<not> dict_has demo_keyword_dict (str ''cats'')"
  by (simp add: demo_keyword_dict_def dict_has_def dict_keys_def str_def)

lemma demo_no_dog: "\<not> dict_has demo_keyword_dict (str ''dog'')"
  by (simp add: demo_keyword_dict_def dict_has_def dict_keys_def str_def)

lemma demo_has_happy: "dict_has demo_keyword_dict (str ''happy'')"
  by (simp add: demo_keyword_dict_def dict_has_def dict_keys_def)

lemma demo_cat_address: "dict_get demo_keyword_dict (str ''cat'') = Some 1"
  by (simp add: demo_keyword_dict_def dict_get_def str_def)

lemma demo_happy_address: "dict_get demo_keyword_dict (str ''happy'') = Some 0"
  by (simp add: demo_keyword_dict_def dict_get_def)

lemma demo_pair: "(str ''cats'', str ''cat'') \<in> set demo_plurals"
  by (simp add: demo_plurals_def)

lemma demo_linked_has_cats: "dict_has (link_plurals demo_plurals demo_keyword_dict) (str ''cats'')"
  by (simp add: demo_link dict_has_def dict_keys_def)

lemma demo_variant_fails:
  "\<not> passes_filters demo_ext None (popularity_dict (ranked_tsv demo_files)) thumbs_up_dark"
  by (simp add: passes_filters_def world_defs)

lemma demo_variant_skipped:
  "process_char demo_ext None [] (popularity_dict (ranked_tsv demo_files))
     (thumbs_up_dark, phrases [''happy'']) empty_lexicon = Inr empty_lexicon"
  by (simp add: scan_defs world_defs)

lemma example_passes:
  "passes_filters demo_ext None (popularity_dict (ranked_tsv example_files)) grinning_face"
  by (simp add: passes_filters_def world_defs utf8_scalar_def)

lemma example_default:
  "ann_default (phrases [''grinning face'', ''happy'']) = Some (map str [''grinning face'', ''happy''])"
  by (simp add: phrases_def)

lemma example_accepted:
  "accepted_keywords demo_ext [] (map str [''grinning face'', ''happy'']) = [str ''happy'']"
  by (simp add: accepted_keywords_def py_split_def py_isspace_def world_defs)

lemma demo_commas: "add_num_commas demo_ext n = replicate n 0x7C"
  by (simp add: demo_ext_def)

lemma demo_gen_verbose:
  "gen_emoji_lexicon demo_ext demo_files (str ''English'') None None Ignore_None True True =
     Inr ([Progress_bar Annotations (str ''English''),
           Progress_bar Annotations_derived (str ''English''),
           Keywords_found (str ''English'') [0x7C, 0x7C, 0x7C, 0x7C]],
          [(str ''happy'', map With_base_rank [e_grinning, e_thumbs, e_cat, e_sparkles]),
           (str ''cat'', [With_base_rank e_cat]),
           (str ''ok'', [With_base_rank e_thumbs]), (str ''cats'', [With_base_rank e_cat])])"
  by (simp add: gen_emoji_lexicon_def demo_ranked shape_def demo_commas)

lemma demo_list_raises:
  "keywords_to_ignore demo_ext (Ignore_List [PyStr (str ''happy''), PyInt 3]) = Inl AttributeError"
  by (simp add: keywords_to_ignore_def)

section \<open>The claims\<close>

text \<open>
  Claim C1.  In the table that \<open>gen_emoji_lexicon\<close> returns, every list is sorted by
  non-decreasing popularity rank, an unranked suggestion is followed by unranked ones
  only, and the suggestions of one rank (or without rank) stand in the order in which
  the scan inserted them: they are a prefix of those of the list before the sort, and
  the list is the whole stable sort when no cap is in force.  The rank is the one of
  the rank table, which an exported \<open>rank\<close> field repeats.
\<close>

theorem lists_sorted_by_rank:
  assumes "gen_emoji_lexicon ext files lang n epk ig ebr v = Inr (out, table)"
  shows "\<exists>t0. unsorted_table ext files n ig = Inr t0 \<and>
    list_all2
      (\<lambda>(kw, l) (kw0, l0). kw = kw0 \<and>
         sorted (map (\<lambda>s. key_of_rank (popularity files s)) l) \<and>
         (\<forall>i j. i < j \<and> j < length l \<and> popularity files (l ! i) = None
               \<longrightarrow> popularity files (l ! j) = None) \<and>
         (\<forall>r. prefix (filter (\<lambda>s. popularity files s = r) l)
                (map (as_suggestion ebr) (filter (\<lambda>e. rank e = r) l0))) \<and>
         (epk = None \<or> epk = Some 0 \<longrightarrow> l = map (as_suggestion ebr) (sort_key sort_rank l0)) \<and>
         list_all (\<lambda>s. case s of With_base_rank e \<Rightarrow> rank e = popularity files s
                       | Emoji_only c \<Rightarrow> True) l)
      table t0"
    (is "\<exists>t0. _ \<and> list_all2 ?R table t0")
proof -
  from assms obtain ign lx where
    b: "build_lexicon ext files n ign = Inr lx"
    and u: "unsorted_table ext files n ig = Inr (resolve lx)"
    and t: "table = shape ebr (resolve (sort_lexicon epk lx))"
    by (rule gen_emoji_lexicon_Inr)
  let ?pop = "popularity_dict (ranked_tsv files)"
  let ?S = "scanned_entry ext n ?pop"
  have wf: "wf_lexicon lx" using b by (rule build_lexicon_wf)
  have en: "all_entries ?S (store lx)" using b by (rule build_lexicon_entries)
  have each: "?R (kw, map (as_suggestion ebr) (store (sort_lexicon epk lx) ! a)) (kw, store lx ! a)"
    if mem: "(kw, a) \<in> set (keyword_dict lx)" for kw a
  proof -
    let ?l = "store (sort_lexicon epk lx) ! a"
    let ?orig = "store lx ! a"
    from store_sort_take [OF wf mem] obtain m where
      m: "?l = take m (sort_key sort_rank ?orig)" by blast
    have sc: "list_all ?S ?l" using wf mem en by (rule final_list_scanned)
    have pop: "popularity files (as_suggestion ebr e) = rank e" if "e \<in> set ?l" for e
      using sc that by (auto simp: list_all_iff intro: popularity_as_suggestion)
    have keys: "map (\<lambda>s. key_of_rank (popularity files s)) (map (as_suggestion ebr) ?l)
                = map sort_rank ?l"
      using pop by (simp add: sort_rank_key)
    have srt: "sorted (map sort_rank ?l)" unfolding m by (rule sorted_take_sort)
    have 1: "sorted (map (\<lambda>s. key_of_rank (popularity files s)) (map (as_suggestion ebr) ?l))"
      using srt by (simp only: keys)
    have 2: "popularity files (map (as_suggestion ebr) ?l ! j) = None"
      if "i < j" "j < length (map (as_suggestion ebr) ?l)"
         "popularity files (map (as_suggestion ebr) ?l ! i) = None" for i j
    proof -
      have "rank (?l ! i) = None" using that pop [of "?l ! i"] by simp
      then have "rank (?l ! j) = None" using sorted_unranked_last [OF srt] that by simp
      then show ?thesis using that pop [of "?l ! j"] by simp
    qed
    have 3: "prefix (filter (\<lambda>s. popularity files s = r) (map (as_suggestion ebr) ?l))
                (map (as_suggestion ebr) (filter (\<lambda>e. rank e = r) ?orig))" for r
    proof -
      have "filter (\<lambda>s. popularity files s = r) (map (as_suggestion ebr) ?l)
            = map (as_suggestion ebr) (filter (\<lambda>e. rank e = r) ?l)"
        using pop by (simp add: filter_map o_def cong: filter_cong)
      moreover have "prefix (filter (\<lambda>e. rank e = r) ?l) (filter (\<lambda>e. rank e = r) ?orig)"
        unfolding m by (rule prefix_filter_take_sort)
      ultimately show ?thesis by (simp add: map_mono_prefix)
    qed
    have 4: "epk = None \<or> epk = Some 0 \<longrightarrow>
            map (as_suggestion ebr) ?l = map (as_suggestion ebr) (sort_key sort_rank ?orig)"
      using store_sort_off [OF _ wf mem] by auto
    have 5: "list_all (\<lambda>s. case s of With_base_rank e \<Rightarrow> rank e = popularity files s
                       | Emoji_only c \<Rightarrow> True) (map (as_suggestion ebr) ?l)"
      using pop by (auto simp: list_all_iff as_suggestion_def)
    show ?thesis unfolding prod.case using 1 2 3 4 5 by blast
  qed
  have "list_all2 ?R table (resolve lx)"
    unfolding t shape_eq resolve_def keyword_dict_sort
    by (simp add: list_all2_map1 list_all2_map2 list_all2_same split_def) (use each in fastforce)
  with u show ?thesis by blast
qed

theorem lists_sorted_by_rank_witness:
  "gen_emoji_lexicon demo_ext demo_files (str ''English'') None None Ignore_None True False =
     Inr ([], [(str ''happy'', map With_base_rank [e_grinning, e_thumbs, e_cat, e_sparkles]),
               (str ''cat'', [With_base_rank e_cat]),
               (str ''ok'', [With_base_rank e_thumbs]), (str ''cats'', [With_base_rank e_cat])]) \<and>
   (\<exists>t0. unsorted_table demo_ext demo_files None Ignore_None = Inr t0 \<and>
    list_all2
      (\<lambda>(kw, l) (kw0, l0). kw = kw0 \<and>
         sorted (map (\<lambda>s. key_of_rank (popularity demo_files s)) l) \<and>
         (\<forall>i j. i < j \<and> j < length l \<and> popularity demo_files (l ! i) = None
               \<longrightarrow> popularity demo_files (l ! j) = None) \<and>
         (\<forall>r. prefix (filter (\<lambda>s. popularity demo_files s = r) l)
                (map (as_suggestion True) (filter (\<lambda>e. rank e = r) l0))) \<and>
         ((None::int option) = None \<or> (None::int option) = Some 0 \<longrightarrow> l = map (as_suggestion True) (sort_key sort_rank l0)) \<and>
         list_all (\<lambda>s. case s of With_base_rank e \<Rightarrow> rank e = popularity demo_files s
                       | Emoji_only c \<Rightarrow> True) l)
      [(str ''happy'', map With_base_rank [e_grinning, e_thumbs, e_cat, e_sparkles]),
               (str ''cat'', [With_base_rank e_cat]),
               (str ''ok'', [With_base_rank e_thumbs]), (str ''cats'', [With_base_rank e_cat])] t0)"
  by (rule conjI [OF demo_gen lists_sorted_by_rank [OF demo_gen]])

text \<open>
  Claim C2.  With \<open>emojis_per_keyword = k\<close> for a positive \<open>k\<close>, every list of the
  returned table has at most \<open>k\<close> suggestions, and they are the first \<open>k\<close> of the stable
  sort of the list that the key held before: no dropped suggestion ranks before a kept
  one, and suggestions of equal or absent rank keep their scan order.
\<close>

theorem per_keyword_cap:
  assumes "0 < k"
    and "gen_emoji_lexicon ext files lang n (Some k) ig ebr v = Inr (out, table)"
  shows "\<exists>t0. unsorted_table ext files n ig = Inr t0 \<and>
     table = map (\<lambda>(kw, l). (kw, map (as_suggestion ebr) (take (nat k) (sort_key sort_rank l)))) t0 \<and>
     list_all (\<lambda>(kw, l). int (length l) \<le> k) table \<and>
     list_all (\<lambda>(kw, l).
        (\<forall>x \<in> set (take (nat k) (sort_key sort_rank l)).
           \<forall>y \<in> set (drop (nat k) (sort_key sort_rank l)). sort_rank x \<le> sort_rank y) \<and>
        (\<forall>r. filter (\<lambda>e. rank e = r) (sort_key sort_rank l) = filter (\<lambda>e. rank e = r) l) \<and>
        mset (sort_key sort_rank l) = mset l) t0"
proof -
  from assms(2) obtain ign lx where
    b: "build_lexicon ext files n ign = Inr lx"
    and u: "unsorted_table ext files n ig = Inr (resolve lx)"
    and t: "table = shape ebr (resolve (sort_lexicon (Some k) lx))"
    by (rule gen_emoji_lexicon_Inr)
  have wf: "wf_lexicon lx" using b by (rule build_lexicon_wf)
  have 1: "table = map (\<lambda>(kw, l). (kw, map (as_suggestion ebr) (take (nat k) (sort_key sort_rank l))))
             (resolve lx)"
    unfolding t shape_eq resolve_sort_exact [OF assms(1) wf] by (simp add: split_def o_def)
  have 2: "list_all (\<lambda>(kw, l). int (length l) \<le> k) table"
    unfolding 1 using assms(1) by (auto simp: list_all_iff)
  have 3: "list_all (\<lambda>(kw, l).
        (\<forall>x \<in> set (take (nat k) (sort_key sort_rank l)).
           \<forall>y \<in> set (drop (nat k) (sort_key sort_rank l)). sort_rank x \<le> sort_rank y) \<and>
        (\<forall>r. filter (\<lambda>e. rank e = r) (sort_key sort_rank l) = filter (\<lambda>e. rank e = r) l) \<and>
        mset (sort_key sort_rank l) = mset l) (resolve lx)"
    by (auto simp: list_all_iff sort_rank_filter intro: sort_take_drop)
  from u 1 2 3 show ?thesis by blast
qed

theorem per_keyword_cap_witness:
  "(0::int) < 2 \<and>
   gen_emoji_lexicon demo_ext demo_files (str ''English'') None (Some 2) Ignore_None False False =
     Inr ([], [(str ''happy'', [Emoji_only grinning_face, Emoji_only thumbs_up]),
               (str ''cat'', [Emoji_only cat_face]),
               (str ''ok'', [Emoji_only thumbs_up]), (str ''cats'', [Emoji_only cat_face])]) \<and>
   (\<exists>t0. unsorted_table demo_ext demo_files None Ignore_None = Inr t0 \<and>
     [(str ''happy'', [Emoji_only grinning_face, Emoji_only thumbs_up]),
      (str ''cat'', [Emoji_only cat_face]),
      (str ''ok'', [Emoji_only thumbs_up]), (str ''cats'', [Emoji_only cat_face])]
       = map (\<lambda>(kw, l). (kw, map (as_suggestion False) (take (nat 2) (sort_key sort_rank l)))) t0 \<and>
     list_all (\<lambda>(kw, l). int (length l) \<le> 2)
       [(str ''happy'', [Emoji_only grinning_face, Emoji_only thumbs_up]),
        (str ''cat'', [Emoji_only cat_face]),
        (str ''ok'', [Emoji_only thumbs_up]), (str ''cats'', [Emoji_only cat_face])] \<and>
     list_all (\<lambda>(kw, l).
        (\<forall>x \<in> set (take (nat 2) (sort_key sort_rank l)).
           \<forall>y \<in> set (drop (nat 2) (sort_key sort_rank l)). sort_rank x \<le> sort_rank y) \<and>
        (\<forall>r. filter (\<lambda>e. rank e = r) (sort_key sort_rank l) = filter (\<lambda>e. rank e = r) l) \<and>
        mset (sort_key sort_rank l) = mset l) t0)"
proof -
  have pos: "(0::int) < 2" by simp
  show ?thesis
    by (rule conjI [OF pos conjI [OF demo_gen_cap per_keyword_cap [OF pos demo_gen_cap]]])
qed

text \<open>
  Claim C3.  With \<open>num_emojis = m\<close> for a positive \<open>m\<close>, every suggestion of the returned
  table, under whatever key, is of a character whose popularity rank exists and is at
  most \<open>m\<close>.
\<close>

theorem rank_limit:
  assumes "0 < m"
    and "gen_emoji_lexicon ext files lang (Some m) epk ig ebr v = Inr (out, table)"
  shows "list_all (\<lambda>(kw, l).
           list_all (\<lambda>s. (case popularity files s of None \<Rightarrow> False | Some r \<Rightarrow> r \<le> m) \<and>
                        (case s of With_base_rank e \<Rightarrow> rank e = popularity files s
                         | Emoji_only c \<Rightarrow> True)) l) table"
proof -
  from assms(2) obtain ign lx where
    b: "build_lexicon ext files (Some m) ign = Inr lx"
    and t: "table = shape ebr (resolve (sort_lexicon epk lx))"
    by (rule gen_emoji_lexicon_Inr)
  let ?S = "scanned_entry ext (Some m) (popularity_dict (ranked_tsv files))"
  have wf: "wf_lexicon lx" using b by (rule build_lexicon_wf)
  have en: "all_entries ?S (store lx)" using b by (rule build_lexicon_entries)
  have ok: "(case popularity files (as_suggestion ebr e) of None \<Rightarrow> False | Some r \<Rightarrow> r \<le> m) \<and>
            (case as_suggestion ebr e of With_base_rank e' \<Rightarrow> rank e' = popularity files (as_suggestion ebr e)
             | Emoji_only c \<Rightarrow> True)" if "?S e" for e
    using that assms(1)
    by (auto simp: scanned_entry_def passes_filters_def popularity_def as_suggestion_def
        split: option.splits)
  have "list_all ?S (store (sort_lexicon epk lx) ! a)" if "(kw, a) \<in> set (keyword_dict lx)" for kw a
    using wf that en by (rule final_list_scanned)
  then have "\<forall>(kw, a) \<in> set (keyword_dict lx). \<forall>e \<in> set (store (sort_lexicon epk lx) ! a).
     (case popularity files (as_suggestion ebr e) of None \<Rightarrow> False | Some r \<Rightarrow> r \<le> m) \<and>
     (case as_suggestion ebr e of With_base_rank e' \<Rightarrow> rank e' = popularity files (as_suggestion ebr e)
      | Emoji_only c \<Rightarrow> True)"
    using ok by (fastforce simp: list_all_iff)
  then show ?thesis unfolding t shape_eq resolve_def keyword_dict_sort
    by (simp add: list_all_iff split_def)
qed

theorem rank_limit_witness:
  "(0::int) < 10 \<and>
   gen_emoji_lexicon demo_ext demo_files (str ''English'') (Some 10) None Ignore_None True False =
     Inr ([], [(str ''happy'', [With_base_rank e_grinning, With_base_rank e_thumbs]),
               (str ''ok'', [With_base_rank e_thumbs])]) \<and>
   list_all (\<lambda>(kw, l).
           list_all (\<lambda>s. (case popularity demo_files s of None \<Rightarrow> False | Some r \<Rightarrow> r \<le> 10) \<and>
                        (case s of With_base_rank e \<Rightarrow> rank e = popularity demo_files s
                         | Emoji_only c \<Rightarrow> True)) l)
      [(str ''happy'', [With_base_rank e_grinning, With_base_rank e_thumbs]),
       (str ''ok'', [With_base_rank e_thumbs])]"
proof -
  have pos: "(0::int) < 10" by simp
  show ?thesis
    by (rule conjI [OF pos conjI [OF demo_gen_limit rank_limit [OF pos demo_gen_limit]]])
qed

text \<open>
  Claim C4.  The plural linkage only fills gaps, for the pairs derived from the noun
  data.  One pair leaves the table as it is
  when the plural is a key already or the singular is not a key, and otherwise appends
  the plural with the address of the singular's list.  Over the whole loop no existing
  key changes its list, every new key is the plural of a pair and shares the list of
  its singular, and every pair whose plural was absent and whose singular was present
  ends with the plural on the singular's list.
\<close>

theorem plural_linkage_fills_gaps:
  assumes "plurals_to_singulars_dict ext noun_data [] = Inr pairs"
  shows "(dict_has kd p \<longrightarrow> link_plural (p, s) kd = kd) \<and>
    (\<not> dict_has kd s \<longrightarrow> link_plural (p, s) kd = kd) \<and>
    (\<not> dict_has kd p \<and> dict_get kd s = Some a \<longrightarrow>
       link_plural (p, s) kd = kd @ [(p, a)] \<and>
       dict_get (link_plural (p, s) kd) p = dict_get (link_plural (p, s) kd) s) \<and>
    (\<forall>k b. dict_get kd k = Some b \<longrightarrow> dict_get (link_plurals pairs kd) k = Some b) \<and>
    (\<forall>k. dict_has (link_plurals pairs kd) k \<and> \<not> dict_has kd k \<longrightarrow>
       (\<exists>s'. (k, s') \<in> set pairs \<and> dict_get (link_plurals pairs kd) k \<noteq> None \<and>
             dict_get (link_plurals pairs kd) s' = dict_get (link_plurals pairs kd) k)) \<and>
    (\<forall>p' s' b. (p', s') \<in> set pairs \<and> \<not> dict_has kd p' \<and> dict_get kd s' = Some b \<longrightarrow>
       dict_get (link_plurals pairs kd) p' = Some b \<and>
       dict_get (link_plurals pairs kd) s' = Some b)"
proof -
  have d: "distinct (dict_keys pairs)"
    using plurals_to_singulars_distinct [OF assms] by (simp add: dict_keys_def)
  have 1: "dict_has kd p \<longrightarrow> link_plural (p, s) kd = kd"
    by (simp add: link_plural_present)
  have 2: "\<not> dict_has kd s \<longrightarrow> link_plural (p, s) kd = kd"
    by (simp add: link_plural_no_singular)
  have 3: "\<not> dict_has kd p \<and> dict_get kd s = Some a \<longrightarrow>
       link_plural (p, s) kd = kd @ [(p, a)] \<and>
       dict_get (link_plural (p, s) kd) p = dict_get (link_plural (p, s) kd) s"
    by (auto simp: link_plural_new dict_get_append_new)
  have 4: "\<forall>k b. dict_get kd k = Some b \<longrightarrow> dict_get (link_plurals pairs kd) k = Some b"
    by (simp add: link_plurals_get_old)
  have 5: "\<forall>k. dict_has (link_plurals pairs kd) k \<and> \<not> dict_has kd k \<longrightarrow>
       (\<exists>s'. (k, s') \<in> set pairs \<and> dict_get (link_plurals pairs kd) k \<noteq> None \<and>
             dict_get (link_plurals pairs kd) s' = dict_get (link_plurals pairs kd) k)"
    using link_plurals_new by blast
  have 6: "\<forall>p' s' b. (p', s') \<in> set pairs \<and> \<not> dict_has kd p' \<and> dict_get kd s' = Some b \<longrightarrow>
       dict_get (link_plurals pairs kd) p' = Some b \<and>
       dict_get (link_plurals pairs kd) s' = Some b"
    using link_plurals_fills [OF d] link_plurals_get_old by blast
  show ?thesis
    by (rule conjI [OF 1 conjI [OF 2 conjI [OF 3 conjI [OF 4 conjI [OF 5 6]]]]])
qed

theorem plural_linkage_fills_gaps_witness:
  "plurals_to_singulars_dict demo_ext (nouns demo_files) [] = Inr demo_plurals \<and>
   link_plurals demo_plurals demo_keyword_dict = demo_keyword_dict @ [(str ''cats'', 1)] \<and>
   dict_has demo_keyword_dict (str ''happy'') \<and>
   link_plural (str ''happy'', str ''cat'') demo_keyword_dict = demo_keyword_dict \<and>
   \<not> dict_has demo_keyword_dict (str ''dog'') \<and>
   link_plural (str ''dogs'', str ''dog'') demo_keyword_dict = demo_keyword_dict \<and>
   \<not> dict_has demo_keyword_dict (str ''cats'') \<and>
   dict_get demo_keyword_dict (str ''cat'') = Some 1 \<and>
   link_plural (str ''cats'', str ''cat'') demo_keyword_dict
     = demo_keyword_dict @ [(str ''cats'', 1)] \<and>
   dict_get (link_plural (str ''cats'', str ''cat'') demo_keyword_dict) (str ''cats'')
     = dict_get (link_plural (str ''cats'', str ''cat'') demo_keyword_dict) (str ''cat'') \<and>
   dict_get demo_keyword_dict (str ''happy'') = Some 0 \<and>
   dict_get (link_plurals demo_plurals demo_keyword_dict) (str ''happy'') = Some 0 \<and>
   dict_has (link_plurals demo_plurals demo_keyword_dict) (str ''cats'') \<and>
   (\<exists>s'. (str ''cats'', s') \<in> set demo_plurals \<and>
         dict_get (link_plurals demo_plurals demo_keyword_dict) (str ''cats'') \<noteq> None \<and>
         dict_get (link_plurals demo_plurals demo_keyword_dict) s'
           = dict_get (link_plurals demo_plurals demo_keyword_dict) (str ''cats'')) \<and>
   (str ''cats'', str ''cat'') \<in> set demo_plurals \<and>
   dict_get (link_plurals demo_plurals demo_keyword_dict) (str ''cats'') = Some 1 \<and>
   dict_get (link_plurals demo_plurals demo_keyword_dict) (str ''cat'') = Some 1"
proof -
  note a = plural_linkage_fills_gaps [where ext = demo_ext and noun_data = "nouns demo_files"
      and pairs = demo_plurals and kd = demo_keyword_dict
      and p = "str ''happy''" and s = "str ''cat''" and a = 1, OF demo_pairs_plurals]
  note b = plural_linkage_fills_gaps [where ext = demo_ext and noun_data = "nouns demo_files"
      and pairs = demo_plurals and kd = demo_keyword_dict
      and p = "str ''dogs''" and s = "str ''dog''" and a = 1, OF demo_pairs_plurals]
  note c = plural_linkage_fills_gaps [where ext = demo_ext and noun_data = "nouns demo_files"
      and pairs = demo_plurals and kd = demo_keyword_dict
      and p = "str ''cats''" and s = "str ''cat''" and a = 1, OF demo_pairs_plurals]
  have 1: "link_plural (str ''happy'', str ''cat'') demo_keyword_dict = demo_keyword_dict"
    using a demo_has_happy by blast
  have 2: "link_plural (str ''dogs'', str ''dog'') demo_keyword_dict = demo_keyword_dict"
    using b demo_no_dog by blast
  have 3: "link_plural (str ''cats'', str ''cat'') demo_keyword_dict
       = demo_keyword_dict @ [(str ''cats'', 1)] \<and>
     dict_get (link_plural (str ''cats'', str ''cat'') demo_keyword_dict) (str ''cats'')
       = dict_get (link_plural (str ''cats'', str ''cat'') demo_keyword_dict) (str ''cat'')"
    using c demo_no_cats demo_cat_address by blast
  have 4: "dict_get (link_plurals demo_plurals demo_keyword_dict) (str ''happy'') = Some 0"
    using c demo_happy_address by blast
  have 5: "\<exists>s'. (str ''cats'', s') \<in> set demo_plurals \<and>
         dict_get (link_plurals demo_plurals demo_keyword_dict) (str ''cats'') \<noteq> None \<and>
         dict_get (link_plurals demo_plurals demo_keyword_dict) s'
           = dict_get (link_plurals demo_plurals demo_keyword_dict) (str ''cats'')"
    using c demo_linked_has_cats demo_no_cats by blast
  have 6: "dict_get (link_plurals demo_plurals demo_keyword_dict) (str ''cats'') = Some 1 \<and>
     dict_get (link_plurals demo_plurals demo_keyword_dict) (str ''cat'') = Some 1"
    using c demo_pair demo_no_cats demo_cat_address by blast
  show ?thesis
    using demo_pairs_plurals demo_link demo_has_happy 1 demo_no_dog 2 demo_no_cats
      demo_cat_address 3 demo_happy_address 4 demo_linked_has_cats 5 demo_pair 6
    by (intro conjI) (erule conjunct1 conjunct2 | assumption)+
qed

text \<open>
  Claim C5.  The claim is that an ignored keyword is never a key of the returned table,
  also when the plural linkage would introduce it.  The scan does keep it out
  (\<open>scan_files_not_ignored\<close>), but the linkage does not consult the ignore list: with
  \<open>Cats\<close> ignored, the annotation \<open>Cats\<close> is dropped and the noun \<open>Cat\<close> brings the key
  \<open>cats\<close> back.
\<close>

theorem ignored_keyword_linked_as_plural:
  "gen_emoji_lexicon demo_ext plural_files (str ''English'') None None
     (Ignore_Str (str ''Cats'')) False False =
     Inr ([], [(str ''cat'', [Emoji_only cat_face]), (str ''cats'', [Emoji_only cat_face])])"
  by (simp add: gen_emoji_lexicon_def plural_ranked shape_def e_cat_def)

text \<open>
  Claim C6.  The body of the scan loop is the filtering policy: a character that passes
  all five filters contributes the keywords of its default phrases, and any other
  character leaves the table as it is (or the encoding raises).  Hence every suggestion
  of the returned table is of a character that passes all filters.
\<close>

theorem filtering_policy:
  "process_char ext n ign pop (c, ann) lx =
     (if passes_filters ext n pop c then
        (case ann_default ann of
           None \<Rightarrow> Inl KeyError
         | Some ps \<Rightarrow>
             Inr (add_keywords ext ign
                 \<lparr>emoji = c, is_base = EMOJI_MODIFIER_BASE ext c, rank = dict_get pop c\<rparr> ps lx))
      else if EMOJI_DATA ext c \<noteq> None \<and> encode_utf8 c = Inl UnicodeEncodeError
        then Inl UnicodeEncodeError
      else Inr lx) \<and>
   (gen_emoji_lexicon ext files lang n epk ig ebr v = Inr (out, table) \<longrightarrow>
      list_all (\<lambda>(kw, l).
        list_all (\<lambda>s. passes_filters ext n (popularity_dict (ranked_tsv files)) (suggested s)) l)
        table)"
proof -
  have 1: "process_char ext n ign pop (c, ann) lx =
     (if passes_filters ext n pop c then
        (case ann_default ann of
           None \<Rightarrow> Inl KeyError
         | Some ps \<Rightarrow>
             Inr (add_keywords ext ign
                 \<lparr>emoji = c, is_base = EMOJI_MODIFIER_BASE ext c, rank = dict_get pop c\<rparr> ps lx))
      else if EMOJI_DATA ext c \<noteq> None \<and> encode_utf8 c = Inl UnicodeEncodeError
        then Inl UnicodeEncodeError
      else Inr lx)"
    using process_char_pass [of ext n pop c ign ann lx] process_char_fail [of ext n pop c ign ann lx]
    by (cases "passes_filters ext n pop c") simp_all
  have 2: "list_all (\<lambda>(kw, l).
        list_all (\<lambda>s. passes_filters ext n (popularity_dict (ranked_tsv files)) (suggested s)) l)
        table" if g: "gen_emoji_lexicon ext files lang n epk ig ebr v = Inr (out, table)"
  proof -
    from g obtain ign' lx' where
      b: "build_lexicon ext files n ign' = Inr lx'"
      and t: "table = shape ebr (resolve (sort_lexicon epk lx'))"
      by (rule gen_emoji_lexicon_Inr)
    let ?S = "scanned_entry ext n (popularity_dict (ranked_tsv files))"
    have wf: "wf_lexicon lx'" using b by (rule build_lexicon_wf)
    have en: "all_entries ?S (store lx')" using b by (rule build_lexicon_entries)
    have "list_all ?S (store (sort_lexicon epk lx') ! a)"
      if "(kw, a) \<in> set (keyword_dict lx')" for kw a
      using wf that en by (rule final_list_scanned)
    then have "\<forall>(kw, a) \<in> set (keyword_dict lx'). \<forall>e \<in> set (store (sort_lexicon epk lx') ! a).
       passes_filters ext n (popularity_dict (ranked_tsv files)) (suggested (as_suggestion ebr e))"
      by (fastforce simp: list_all_iff scanned_entry_def as_suggestion_def)
    then show ?thesis unfolding t shape_eq resolve_def keyword_dict_sort
      by (simp add: list_all_iff split_def)
  qed
  from 1 2 show ?thesis by blast
qed

theorem filtering_policy_witness:
  "\<not> passes_filters demo_ext None (popularity_dict (ranked_tsv demo_files)) thumbs_up_dark \<and>
   process_char demo_ext None [] (popularity_dict (ranked_tsv demo_files))
     (thumbs_up_dark, phrases [''happy'']) empty_lexicon = Inr empty_lexicon \<and>
   gen_emoji_lexicon demo_ext demo_files (str ''English'') None None Ignore_None True False =
     Inr ([], [(str ''happy'', map With_base_rank [e_grinning, e_thumbs, e_cat, e_sparkles]),
               (str ''cat'', [With_base_rank e_cat]),
               (str ''ok'', [With_base_rank e_thumbs]), (str ''cats'', [With_base_rank e_cat])]) \<and>
   process_char demo_ext None [] (popularity_dict (ranked_tsv demo_files))
     (thumbs_up_dark, phrases [''happy'']) empty_lexicon =
     (if passes_filters demo_ext None (popularity_dict (ranked_tsv demo_files)) thumbs_up_dark then
        (case ann_default (phrases [''happy'']) of
           None \<Rightarrow> Inl KeyError
         | Some ps \<Rightarrow>
             Inr (add_keywords demo_ext []
                 \<lparr>emoji = thumbs_up_dark, is_base = EMOJI_MODIFIER_BASE demo_ext thumbs_up_dark,
                  rank = dict_get (popularity_dict (ranked_tsv demo_files)) thumbs_up_dark\<rparr>
                 ps empty_lexicon))
      else if EMOJI_DATA demo_ext thumbs_up_dark \<noteq> None \<and>
              encode_utf8 thumbs_up_dark = Inl UnicodeEncodeError
        then Inl UnicodeEncodeError
      else Inr empty_lexicon) \<and>
   list_all (\<lambda>(kw, l).
        list_all (\<lambda>s. passes_filters demo_ext None (popularity_dict (ranked_tsv demo_files))
                       (suggested s)) l)
     [(str ''happy'', map With_base_rank [e_grinning, e_thumbs, e_cat, e_sparkles]),
      (str ''cat'', [With_base_rank e_cat]),
      (str ''ok'', [With_base_rank e_thumbs]), (str ''cats'', [With_base_rank e_cat])]"
proof -
  note inst = filtering_policy [of demo_ext None "[]" "popularity_dict (ranked_tsv demo_files)"
      thumbs_up_dark "phrases [''happy'']" empty_lexicon demo_files "str ''English''" None
      Ignore_None True False "[]"
      "[(str ''happy'', map With_base_rank [e_grinning, e_thumbs, e_cat, e_sparkles]),
        (str ''cat'', [With_base_rank e_cat]),
        (str ''ok'', [With_base_rank e_thumbs]), (str ''cats'', [With_base_rank e_cat])]"]
  show ?thesis
    by (rule conjI [OF demo_variant_fails conjI [OF demo_variant_skipped
          conjI [OF demo_gen conjI [OF conjunct1 [OF inst] mp [OF conjunct2 [OF inst] demo_gen]]]]])
qed

text \<open>
  Claim C7.  For a character that passes the filters, the keys after its turn are the
  keys before together with its default phrases that, lowercased, are one word and not
  ignored.  In the scenario of the specification the returned table is the one key
  \<open>happy\<close>, with the bare emoji or, when base and rank are exported, with
  \<open>is_base = False\<close> and \<open>rank = 1\<close>; there is no key \<open>grinning\<close>, \<open>face\<close> or
  \<open>grinning face\<close>.
\<close>

theorem single_word_keywords:
  "(passes_filters ext n pop c \<and> ann_default ann = Some ps \<longrightarrow>
     (\<exists>lx'. process_char ext n ign pop (c, ann) lx = Inr lx' \<and>
        set (dict_keys (keyword_dict lx')) =
          set (dict_keys (keyword_dict lx)) \<union> set (accepted_keywords ext ign ps))) \<and>
   map_sum id snd
     (gen_emoji_lexicon demo_ext example_files lang None None Ignore_None False v) =
     Inr [(str ''happy'', [Emoji_only grinning_face])] \<and>
   \<not> dict_has [(str ''happy'', [Emoji_only grinning_face])] (str ''grinning'') \<and>
   \<not> dict_has [(str ''happy'', [Emoji_only grinning_face])] (str ''face'') \<and>
   \<not> dict_has [(str ''happy'', [Emoji_only grinning_face])] (str ''grinning face'') \<and>
   map_sum id snd
     (gen_emoji_lexicon demo_ext example_files lang None None Ignore_None True v) =
     Inr [(str ''happy'',
           [With_base_rank \<lparr>emoji = grinning_face, is_base = False, rank = Some 1\<rparr>])]"
proof -
  have 1: "passes_filters ext n pop c \<and> ann_default ann = Some ps \<longrightarrow>
     (\<exists>lx'. process_char ext n ign pop (c, ann) lx = Inr lx' \<and>
        set (dict_keys (keyword_dict lx')) =
          set (dict_keys (keyword_dict lx)) \<union> set (accepted_keywords ext ign ps))"
    by (auto simp: process_char_pass keys_add_keywords)
  have 2: "map_sum id snd
     (gen_emoji_lexicon demo_ext example_files lang None None Ignore_None False v) =
     Inr [(str ''happy'', [Emoji_only grinning_face])]"
    by (simp add: gen_emoji_lexicon_def example_ranked shape_def e_grinning_def)
  have 3: "\<not> dict_has [(str ''happy'', [Emoji_only grinning_face])] (str ''grinning'')"
    by (simp add: dict_has_def dict_keys_def str_def)
  have 4: "\<not> dict_has [(str ''happy'', [Emoji_only grinning_face])] (str ''face'')"
    by (simp add: dict_has_def dict_keys_def str_def)
  have 5: "\<not> dict_has [(str ''happy'', [Emoji_only grinning_face])] (str ''grinning face'')"
    by (simp add: dict_has_def dict_keys_def str_def)
  have 6: "map_sum id snd
     (gen_emoji_lexicon demo_ext example_files lang None None Ignore_None True v) =
     Inr [(str ''happy'',
           [With_base_rank \<lparr>emoji = grinning_face, is_base = False, rank = Some 1\<rparr>])]"
    by (simp add: gen_emoji_lexicon_def example_ranked shape_def e_grinning_def)
  show ?thesis
    by (rule conjI [OF 1 conjI [OF 2 conjI [OF 3 conjI [OF 4 conjI [OF 5 6]]]]])
qed

theorem single_word_keywords_witness:
  "passes_filters demo_ext None (popularity_dict (ranked_tsv example_files)) grinning_face \<and>
   ann_default (phrases [''grinning face'', ''happy'']) = Some (map str [''grinning face'', ''happy'']) \<and>
   accepted_keywords demo_ext [] (map str [''grinning face'', ''happy'']) = [str ''happy''] \<and>
   (\<exists>lx'. process_char demo_ext None [] (popularity_dict (ranked_tsv example_files))
            (grinning_face, phrases [''grinning face'', ''happy'']) empty_lexicon = Inr lx' \<and>
        set (dict_keys (keyword_dict lx')) =
          set (dict_keys (keyword_dict empty_lexicon)) \<union>
          set (accepted_keywords demo_ext [] (map str [''grinning face'', ''happy''])))"
proof -
  note inst = single_word_keywords [of demo_ext None "popularity_dict (ranked_tsv example_files)"
      grinning_face "phrases [''grinning face'', ''happy'']"
      "map str [''grinning face'', ''happy'']" "[]" empty_lexicon "str ''English''" False]
  show ?thesis
    by (rule conjI [OF example_passes conjI [OF example_default conjI [OF example_accepted
          mp [OF conjunct1 [OF inst] conjI [OF example_passes example_default]]]]])
qed

text \<open>
  Claim C8.  Two runs that differ in \<open>verbose\<close> only return the same table, or raise the
  same error: the flag changes what is written to the console and nothing else.
\<close>

theorem verbose_changes_console_only:
  "map_sum id snd (gen_emoji_lexicon ext files lang n epk ig ebr True) =
   map_sum id snd (gen_emoji_lexicon ext files lang n epk ig ebr False)"
  by (simp add: gen_emoji_lexicon_def split: sum.splits)

theorem verbose_changes_console_only_witness:
  "gen_emoji_lexicon demo_ext demo_files (str ''English'') None None Ignore_None True True =
     Inr ([Progress_bar Annotations (str ''English''),
           Progress_bar Annotations_derived (str ''English''),
           Keywords_found (str ''English'') [0x7C, 0x7C, 0x7C, 0x7C]],
          [(str ''happy'', map With_base_rank [e_grinning, e_thumbs, e_cat, e_sparkles]),
           (str ''cat'', [With_base_rank e_cat]),
           (str ''ok'', [With_base_rank e_thumbs]), (str ''cats'', [With_base_rank e_cat])]) \<and>
   map_sum id snd
     (gen_emoji_lexicon demo_ext demo_files (str ''English'') None None Ignore_None True True) =
   map_sum id snd
     (gen_emoji_lexicon demo_ext demo_files (str ''English'') None None Ignore_None True False)"
  by (rule conjI [OF demo_gen_verbose verbose_changes_console_only])

text \<open>
  Claim C9.  \<open>num_emojis = 0\<close> and \<open>emojis_per_keyword = 0\<close> behave as \<open>None\<close>: no rank
  filter and no cut.
\<close>

theorem zero_caps_are_off:
  "gen_emoji_lexicon ext files lang (Some 0) epk ig ebr v =
     gen_emoji_lexicon ext files lang None epk ig ebr v \<and>
   gen_emoji_lexicon ext files lang n (Some 0) ig ebr v =
     gen_emoji_lexicon ext files lang n None ig ebr v"
  by (simp add: gen_emoji_lexicon_def ranked_table_def build_lexicon_zero sort_lexicon_zero
      split: sum.splits)

theorem zero_caps_are_off_witness:
  "gen_emoji_lexicon demo_ext demo_files (str ''English'') None None Ignore_None True False =
     Inr ([], [(str ''happy'', map With_base_rank [e_grinning, e_thumbs, e_cat, e_sparkles]),
               (str ''cat'', [With_base_rank e_cat]),
               (str ''ok'', [With_base_rank e_thumbs]), (str ''cats'', [With_base_rank e_cat])]) \<and>
   gen_emoji_lexicon demo_ext demo_files (str ''English'') (Some 0) None Ignore_None True False =
     gen_emoji_lexicon demo_ext demo_files (str ''English'') None None Ignore_None True False \<and>
   gen_emoji_lexicon demo_ext demo_files (str ''English'') None (Some 0) Ignore_None True False =
     gen_emoji_lexicon demo_ext demo_files (str ''English'') None None Ignore_None True False"
  by (rule conjI [OF demo_gen zero_caps_are_off])

text \<open>
  Claim C10.  An \<open>ignore_keywords\<close> that is neither a string nor a list (\<open>None\<close>, a
  tuple, a set) is an empty ignore list: the normalisation returns the empty list
  without raising, whatever the value holds, the run is that of the empty list, and
  with the empty list no one-word phrase is excluded.
\<close>

theorem other_ignore_values_are_empty:
  "keywords_to_ignore ext Ignore_None = Inr [] \<and>
   keywords_to_ignore ext (Ignore_Tuple xs) = Inr [] \<and>
   keywords_to_ignore ext (Ignore_Set xs) = Inr [] \<and>
   gen_emoji_lexicon ext files lang n epk Ignore_None ebr v =
     gen_emoji_lexicon ext files lang n epk (Ignore_List []) ebr v \<and>
   gen_emoji_lexicon ext files lang n epk (Ignore_Tuple xs) ebr v =
     gen_emoji_lexicon ext files lang n epk (Ignore_List []) ebr v \<and>
   gen_emoji_lexicon ext files lang n epk (Ignore_Set xs) ebr v =
     gen_emoji_lexicon ext files lang n epk (Ignore_List []) ebr v \<and>
   accepted_keywords ext [] ps =
     filter (\<lambda>k. length (py_split k) = 1) (map (str_lower ext) ps)"
  by (simp add: gen_emoji_lexicon_def ranked_table_def keywords_to_ignore_def
      accepted_keywords_def)

theorem other_ignore_values_are_empty_witness:
  "keywords_to_ignore demo_ext (Ignore_List [PyStr (str ''happy''), PyInt 3]) = Inl AttributeError \<and>
   keywords_to_ignore demo_ext Ignore_None = Inr [] \<and>
   keywords_to_ignore demo_ext (Ignore_Tuple [PyStr (str ''happy''), PyInt 3]) = Inr [] \<and>
   keywords_to_ignore demo_ext (Ignore_Set [PyStr (str ''happy''), PyInt 3]) = Inr [] \<and>
   gen_emoji_lexicon demo_ext demo_files (str ''English'') None None Ignore_None True False =
     gen_emoji_lexicon demo_ext demo_files (str ''English'') None None (Ignore_List []) True False \<and>
   gen_emoji_lexicon demo_ext demo_files (str ''English'') None None
       (Ignore_Tuple [PyStr (str ''happy''), PyInt 3]) True False =
     gen_emoji_lexicon demo_ext demo_files (str ''English'') None None (Ignore_List []) True False \<and>
   gen_emoji_lexicon demo_ext demo_files (str ''English'') None None
       (Ignore_Set [PyStr (str ''happy''), PyInt 3]) True False =
     gen_emoji_lexicon demo_ext demo_files (str ''English'') None None (Ignore_List []) True False \<and>
   accepted_keywords demo_ext [] (map str [''grinning face'', ''happy'']) =
     filter (\<lambda>k. length (py_split k) = 1)
       (map (str_lower demo_ext) (map str [''grinning face'', ''happy'']))"
  by (rule conjI [OF demo_list_raises other_ignore_values_are_empty])

end
